theory Spec2Isabelle
  imports Main "HOL-Library.Word"
begin

unbundle bit_operations_syntax

section \<open>Values that cross the package boundary\<close>

text \<open>
  Go's \<open>error\<close> is an interface; the nil error is \<open>None\<close>. Three shapes occur:
  an error produced outside the package (by the database driver, the random source),
  the value of \<open>errors.New\<close>, and the value of \<open>errors.Wrap\<close>, which keeps its cause.
\<close>

datatype error =
    Foreign string
  | Fundamental string
  | WithMessage error string

definition errors_New :: "string \<Rightarrow> error option" where
  "errors_New msg = Some (Fundamental msg)"

text \<open>\<open>errors.Wrap\<close> returns nil when its argument is nil.\<close>

definition errors_Wrap :: "error option \<Rightarrow> string \<Rightarrow> error option" where
  "errors_Wrap err msg = (case err of None \<Rightarrow> None | Some e \<Rightarrow> Some (WithMessage e msg))"

text \<open>A panic of the Go runtime ends the call; every operation returns an outcome.\<close>

datatype 'a outcome = Panic string | Ret 'a

text \<open>
  \<open>time.Time\<close> is an instant on one time line, an integer here. The positional
  arguments of a statement are strings and instants.
\<close>

datatype sqlval = VStr string | VTime int

text \<open>
  \<open>context.Context\<close>: the nil interface value, the background context, a child made by
  \<open>WithCancel\<close> and a child that carries a deadline of its own.
\<close>

datatype "context" =
    NilContext
  | Background
  | CancelCtx "context"
  | TimerCtx "context" int

fun Deadline :: "context \<Rightarrow> int option" where
  "Deadline NilContext = None"
| "Deadline Background = None"
| "Deadline (CancelCtx parent) = Deadline parent"
| "Deadline (TimerCtx parent d) = Some d"

fun Parent :: "context \<Rightarrow> context option" where
  "Parent NilContext = None"
| "Parent Background = None"
| "Parent (CancelCtx parent) = Some parent"
| "Parent (TimerCtx parent d) = Some parent"

text \<open>A \<open>context.CancelFunc\<close> is identified by the context it cancels.\<close>

datatype CancelFunc = CancelFunc "context"

definition WithCancel :: "context \<Rightarrow> (context \<times> CancelFunc) outcome" where
  "WithCancel parent =
     (if parent = NilContext then Panic ''cannot create context from nil parent''
      else Ret (CancelCtx parent, CancelFunc (CancelCtx parent)))"

text \<open>
  \<open>context.WithDeadline\<close> of the standard library: a parent whose deadline is already
  before \<open>d\<close> only gets a cancellable child, which inherits the parent's deadline.
\<close>

definition WithDeadline :: "context \<Rightarrow> int \<Rightarrow> (context \<times> CancelFunc) outcome" where
  "WithDeadline parent d =
     (if parent = NilContext then Panic ''cannot create context from nil parent''
      else (case Deadline parent of
              Some cur \<Rightarrow>
                (if cur < d then WithCancel parent
                 else Ret (TimerCtx parent d, CancelFunc (TimerCtx parent d)))
            | None \<Rightarrow> Ret (TimerCtx parent d, CancelFunc (TimerCtx parent d))))"

text \<open>
  \<open>sql.Result\<close>: only \<open>RowsAffected() (int64, error)\<close> is used. \<open>ExecerContext\<close> is
  the interface with the one method \<open>ExecContext(ctx, query, args...) (sql.Result, error)\<close>;
  the state behind the handle, of type \<open>'s\<close>, is passed explicitly. A nil result is \<open>None\<close>.
\<close>

datatype Result = Result (RowsAffected: "int \<times> error option")

type_synonym 's ExecerContext =
  "context \<Rightarrow> string \<Rightarrow> sqlval list \<Rightarrow> 's \<Rightarrow> (Result option \<times> error option) \<times> 's"

section \<open>Library functions the package calls\<close>

text \<open>\<open>fmt.Sprintf\<close> for the verb \<open>%s\<close> with string operands.\<close>

fun Sprintf :: "string \<Rightarrow> string list \<Rightarrow> string" where
  "Sprintf [] as = []"
| "Sprintf [c] as = [c]"
| "Sprintf (c # d # fmt) as =
     (if c = CHR ''%'' \<and> d = CHR ''s''
      then (case as of
              [] \<Rightarrow> ''%!s(MISSING)'' @ Sprintf fmt []
            | a # as' \<Rightarrow> a @ Sprintf fmt as')
      else c # Sprintf (d # fmt) as)"

text \<open>\<open>hex.EncodeToString\<close>: two characters of the table per byte, high nibble first.\<close>

definition hextable :: string where
  "hextable = ''0123456789abcdef''"

fun EncodeToString :: "8 word list \<Rightarrow> string" where
  "EncodeToString [] = []"
| "EncodeToString (v # src) =
     hextable ! unat (drop_bit 4 v) # hextable ! unat (v AND 0x0f) # EncodeToString src"

text \<open>
  \<open>rand.Reader.Read(key[:])\<close>: the source delivers some bytes and an error or nil;
  the delivered bytes overwrite the front of the buffer, whose length never changes.
\<close>

type_synonym rand_result = "8 word list \<times> error option"

definition Read_into :: "8 word list \<Rightarrow> 8 word list \<Rightarrow> 8 word list" where
  "Read_into buf delivered = take (length buf) delivered @ drop (length delivered) buf"

section \<open>Lessor\<close>

record 's Lessor =
  db :: "'s ExecerContext option"
  Table :: string
  Name :: string
  Exp :: string
  Key :: string

definition defaultTable :: string where "defaultTable = ''leases''"
definition defaultName :: string where "defaultName = ''name''"
definition defaultExp :: string where "defaultExp = ''exp''"
definition defaultKey :: string where "defaultKey = ''key''"

definition tableName :: "'s Lessor \<Rightarrow> string" where
  "tableName l = (if Table l = '''' then defaultTable else Table l)"

definition nameName :: "'s Lessor \<Rightarrow> string" where
  "nameName l = (if Lessor.Name l = '''' then defaultName else Lessor.Name l)"

definition expName :: "'s Lessor \<Rightarrow> string" where
  "expName l = (if Lessor.Exp l = '''' then defaultExp else Lessor.Exp l)"

definition keyName :: "'s Lessor \<Rightarrow> string" where
  "keyName l = (if Lessor.Key l = '''' then defaultKey else Lessor.Key l)"

section \<open>The world: Lessor objects, the store, the statements sent\<close>

text \<open>
  A \<open>*Lessor\<close> is an address into the list of allocated Lessor objects; \<open>None\<close> is the
  nil pointer. The store is the state behind the database handle. The trace records,
  in order, every statement handed to \<open>ExecContext\<close>.
\<close>

record 's world =
  heap :: "'s Lessor list"
  store :: 's
  trace :: "(context \<times> string \<times> sqlval list) list"

definition deref :: "'s world \<Rightarrow> nat option \<Rightarrow> 's Lessor option" where
  "deref w p = (case p of None \<Rightarrow> None
                | Some a \<Rightarrow> (if a < length (heap w) then Some (heap w ! a) else None))"

definition NewLessor :: "'s ExecerContext option \<Rightarrow> 's world \<Rightarrow> nat option \<times> 's world" where
  "NewLessor d w =
     (Some (length (heap w)),
      w\<lparr>heap := heap w @ [\<lparr>db = d, Table = '''', Name = '''', Exp = '''', Key = ''''\<rparr>]\<rparr>)"

text \<open>\<open>l.db.ExecContext(ctx, q, args...)\<close>; calling a method of a nil interface panics.\<close>

definition ExecContext ::
  "'s Lessor \<Rightarrow> context \<Rightarrow> string \<Rightarrow> sqlval list \<Rightarrow> 's world
     \<Rightarrow> (Result option \<times> error option) outcome \<times> 's world" where
  "ExecContext l ctx q args w =
     (case db l of
        None \<Rightarrow> (Panic ''invalid memory address or nil pointer dereference'', w)
      | Some f \<Rightarrow>
          (case f ctx q args (store w) of
             (r, s') \<Rightarrow> (Ret r, w\<lparr>store := s', trace := trace w @ [(ctx, q, args)]\<rparr>)))"

section \<open>Lease\<close>

record Lease =
  Lessor :: "nat option"
  Name :: string
  Exp :: int
  Key :: string

definition Acquire_delQFmt :: string where
  "Acquire_delQFmt = ''DELETE FROM %s WHERE %s < $1''"

definition insQFmt :: string where
  "insQFmt = ''INSERT INTO %s (%s, %s, %s) VALUES ($1, $2, $3)''"

definition updQFmt :: string where
  "updQFmt = ''UPDATE %s SET %s = $1 WHERE %s = $2 AND %s = $3 AND %s > $4''"

definition Release_delQFmt :: string where
  "Release_delQFmt = ''DELETE FROM %s WHERE %s = $1 AND %s = $2''"

text \<open>
  \<open>Lessor.Acquire\<close>. \<open>now\<close> is what \<open>time.Now()\<close> reads, \<open>rnd\<close> what the random source
  does when it is asked for the sixteen bytes of the key.
\<close>

definition Acquire ::
  "nat option \<Rightarrow> context \<Rightarrow> string \<Rightarrow> int \<Rightarrow> int \<Rightarrow> rand_result \<Rightarrow> 's world
     \<Rightarrow> (Lease option \<times> error option) outcome \<times> 's world" where
  "Acquire lp ctx name exp now rnd w =
     (case deref w lp of
        None \<Rightarrow> (Panic ''invalid memory address or nil pointer dereference'', w)
      | Some l \<Rightarrow>
          (let delQ = Sprintf Acquire_delQFmt [tableName l, expName l] in
           case ExecContext l ctx delQ [VTime now] w of
             (Panic m, w1) \<Rightarrow> (Panic m, w1)
           | (Ret (_, Some err), w1) \<Rightarrow>
               (Ret (None, errors_Wrap (Some err) ''deleting stale leases''), w1)
           | (Ret (_, None), w1) \<Rightarrow>
               (let key = Read_into (replicate 16 0) (fst rnd) in
                case snd rnd of
                  Some err \<Rightarrow> (Ret (None, errors_Wrap (Some err) ''computing key''), w1)
                | None \<Rightarrow>
                    (let keyHex = EncodeToString key;
                         insQ = Sprintf insQFmt [tableName l, nameName l, expName l, keyName l]
                     in
                     case ExecContext l ctx insQ [VStr name, VTime exp, VStr keyHex] w1 of
                       (Panic m, w2) \<Rightarrow> (Panic m, w2)
                     | (Ret (_, err), w2) \<Rightarrow>
                         (Ret (Some \<lparr>Lessor = lp, Name = name, Exp = exp, Key = keyHex\<rparr>,
                               errors_Wrap err ''inserting into database''), w2)))))"

text \<open>\<open>Lease.Renew\<close>. The receiver is a \<open>*Lease\<close>; \<open>None\<close> is the nil receiver.\<close>

definition Renew ::
  "Lease option \<Rightarrow> context \<Rightarrow> int \<Rightarrow> int \<Rightarrow> 's world \<Rightarrow> error option outcome \<times> 's world" where
  "Renew lo ctx exp now w =
     (case lo of
        None \<Rightarrow> (Panic ''invalid memory address or nil pointer dereference'', w)
      | Some l \<Rightarrow>
     (case deref w (Lessor l) of
        None \<Rightarrow> (Panic ''invalid memory address or nil pointer dereference'', w)
      | Some lessor \<Rightarrow>
          (let updQ = Sprintf updQFmt
                 [tableName lessor, expName lessor, nameName lessor, keyName lessor,
                  expName lessor]
           in
           case ExecContext lessor ctx updQ [VTime exp, VStr (Name l), VStr (Key l), VTime now] w of
             (Panic m, w1) \<Rightarrow> (Panic m, w1)
           | (Ret (_, Some err), w1) \<Rightarrow> (Ret (errors_Wrap (Some err) ''updating database''), w1)
           | (Ret (None, None), w1) \<Rightarrow>
               (Panic ''invalid memory address or nil pointer dereference'', w1)
           | (Ret (Some res, None), w1) \<Rightarrow>
               (case RowsAffected res of
                  (_, Some err) \<Rightarrow> (Ret (errors_Wrap (Some err) ''counting affected rows''), w1)
                | (aff, None) \<Rightarrow>
                    (if aff = 0 then (Ret (errors_New ''could not renew''), w1)
                     else (Ret None, w1))))))"

text \<open>\<open>Lease.Release\<close>.\<close>

definition Release ::
  "Lease option \<Rightarrow> context \<Rightarrow> 's world \<Rightarrow> error option outcome \<times> 's world" where
  "Release lo ctx w =
     (case lo of
        None \<Rightarrow> (Panic ''invalid memory address or nil pointer dereference'', w)
      | Some l \<Rightarrow>
     (case deref w (Lessor l) of
        None \<Rightarrow> (Panic ''invalid memory address or nil pointer dereference'', w)
      | Some lessor \<Rightarrow>
          (let delQ = Sprintf Release_delQFmt
                 [tableName lessor, nameName lessor, keyName lessor]
           in
           case ExecContext lessor ctx delQ [VStr (Name l), VStr (Key l)] w of
             (Panic m, w1) \<Rightarrow> (Panic m, w1)
           | (Ret (_, err), w1) \<Rightarrow> (Ret (errors_Wrap err ''deleting from database''), w1))))"

text \<open>\<open>Lease.Context\<close>.\<close>

definition Context ::
  "Lease option \<Rightarrow> context \<Rightarrow> 's world \<Rightarrow> (context \<times> CancelFunc) outcome \<times> 's world" where
  "Context lo ctx w =
     (case lo of
        None \<Rightarrow> (Panic ''invalid memory address or nil pointer dereference'', w)
      | Some l \<Rightarrow> (WithDeadline ctx (Exp l), w))"

section \<open>The store: one table under a unique index on the name column\<close>

text \<open>
  The database is not part of the package. This is the store the package is written
  for: one table of rows \<open>(name, exp, key)\<close> whose name column is uniquely indexed, and
  the four statements the package sends, each executed atomically. A statement that is
  none of the four, or that names another table or column, is rejected and changes
  nothing. The store pays no attention to the context it is given.
\<close>

record row =
  r_name :: string
  r_exp :: int
  r_key :: string

record schema =
  tbl :: string
  name_col :: string
  exp_col :: string
  key_col :: string

record sql_store =
  table_schema :: schema
  rows :: "row list"

definition sql_delete_before :: "schema \<Rightarrow> string" where
  "sql_delete_before sch = ''DELETE FROM '' @ tbl sch @ '' WHERE '' @ exp_col sch @ '' < $1''"

definition sql_insert :: "schema \<Rightarrow> string" where
  "sql_insert sch =
     ''INSERT INTO '' @ tbl sch @ '' ('' @ name_col sch @ '', '' @ exp_col sch @ '', ''
       @ key_col sch @ '') VALUES ($1, $2, $3)''"

definition sql_update :: "schema \<Rightarrow> string" where
  "sql_update sch =
     ''UPDATE '' @ tbl sch @ '' SET '' @ exp_col sch @ '' = $1 WHERE '' @ name_col sch
       @ '' = $2 AND '' @ key_col sch @ '' = $3 AND '' @ exp_col sch @ '' > $4''"

definition sql_delete_held :: "schema \<Rightarrow> string" where
  "sql_delete_held sch =
     ''DELETE FROM '' @ tbl sch @ '' WHERE '' @ name_col sch @ '' = $1 AND ''
       @ key_col sch @ '' = $2''"

definition affected :: "nat \<Rightarrow> Result option \<times> error option" where
  "affected n = (Some (Result (int n, None)), None)"

definition rejected :: "string \<Rightarrow> Result option \<times> error option" where
  "rejected msg = (None, Some (Foreign msg))"

definition stale :: "int \<Rightarrow> row \<Rightarrow> bool" where
  "stale t r = (r_exp r < t)"

definition held :: "string \<Rightarrow> string \<Rightarrow> row \<Rightarrow> bool" where
  "held n k r = (r_name r = n \<and> r_key r = k)"

definition renewable :: "string \<Rightarrow> string \<Rightarrow> int \<Rightarrow> row \<Rightarrow> bool" where
  "renewable n k t r = (r_name r = n \<and> r_key r = k \<and> r_exp r > t)"

fun sql_exec :: "sql_store ExecerContext" where
  "sql_exec ctx q [VTime t] st =
     (if q = sql_delete_before (table_schema st)
      then (affected (length (filter (stale t) (rows st))),
            st\<lparr>rows := filter (\<lambda>r. \<not> stale t r) (rows st)\<rparr>)
      else (rejected ''syntax error'', st))"
| "sql_exec ctx q [VStr n, VTime e, VStr k] st =
     (if q = sql_insert (table_schema st)
      then (if n \<in> set (map r_name (rows st))
            then (rejected ''UNIQUE constraint failed'', st)
            else (affected 1, st\<lparr>rows := rows st @ [\<lparr>r_name = n, r_exp = e, r_key = k\<rparr>]\<rparr>))
      else (rejected ''syntax error'', st))"
| "sql_exec ctx q [VTime e, VStr n, VStr k, VTime t] st =
     (if q = sql_update (table_schema st)
      then (affected (length (filter (renewable n k t) (rows st))),
            st\<lparr>rows := map (\<lambda>r. if renewable n k t r then r\<lparr>r_exp := e\<rparr> else r) (rows st)\<rparr>)
      else (rejected ''syntax error'', st))"
| "sql_exec ctx q [VStr n, VStr k] st =
     (if q = sql_delete_held (table_schema st)
      then (affected (length (filter (held n k) (rows st))),
            st\<lparr>rows := filter (\<lambda>r. \<not> held n k r) (rows st)\<rparr>)
      else (rejected ''syntax error'', st))"
| "sql_exec ctx q args st = (rejected ''syntax error'', st)"

text \<open>The schema a Lessor's configuration resolves to.\<close>

definition schema_of :: "'s Lessor \<Rightarrow> schema" where
  "schema_of l =
     \<lparr>tbl = tableName l, name_col = nameName l, exp_col = expName l, key_col = keyName l\<rparr>"

text \<open>
  The Lessor at address \<open>a\<close> is attached to the store: its handle is the store's, and
  its configuration resolves to the names of the store's table and columns.
\<close>

definition attached :: "sql_store world \<Rightarrow> nat \<Rightarrow> bool" where
  "attached w a =
     (a < length (heap w) \<and> db (heap w ! a) = Some sql_exec
      \<and> schema_of (heap w ! a) = table_schema (store w))"

text \<open>The unique index: no two rows of the table have the same name.\<close>

definition unique_names :: "sql_store \<Rightarrow> bool" where
  "unique_names st = distinct (map r_name (rows st))"

section \<open>Two callers of Acquire on one store\<close>

text \<open>
  Acquire sends two statements and holds no lock between them, so a statement of
  another caller can execute in between. The two halves of Acquire: up to the return
  after the sweep, and from the key generation on.
\<close>

definition Acquire_sweep ::
  "nat option \<Rightarrow> context \<Rightarrow> int \<Rightarrow> 's world \<Rightarrow> error option outcome \<times> 's world" where
  "Acquire_sweep lp ctx now w =
     (case deref w lp of
        None \<Rightarrow> (Panic ''invalid memory address or nil pointer dereference'', w)
      | Some l \<Rightarrow>
          (let delQ = Sprintf Acquire_delQFmt [tableName l, expName l] in
           case ExecContext l ctx delQ [VTime now] w of
             (Panic m, w1) \<Rightarrow> (Panic m, w1)
           | (Ret (_, err), w1) \<Rightarrow> (Ret (errors_Wrap err ''deleting stale leases''), w1)))"

definition Acquire_insert ::
  "nat option \<Rightarrow> context \<Rightarrow> string \<Rightarrow> int \<Rightarrow> rand_result \<Rightarrow> 's world
     \<Rightarrow> (Lease option \<times> error option) outcome \<times> 's world" where
  "Acquire_insert lp ctx name exp rnd w1 =
     (case deref w1 lp of
        None \<Rightarrow> (Panic ''invalid memory address or nil pointer dereference'', w1)
      | Some l \<Rightarrow>
          (let key = Read_into (replicate 16 0) (fst rnd) in
           case snd rnd of
             Some err \<Rightarrow> (Ret (None, errors_Wrap (Some err) ''computing key''), w1)
           | None \<Rightarrow>
               (let keyHex = EncodeToString key;
                    insQ = Sprintf insQFmt [tableName l, nameName l, expName l, keyName l]
                in
                case ExecContext l ctx insQ [VStr name, VTime exp, VStr keyHex] w1 of
                  (Panic m, w2) \<Rightarrow> (Panic m, w2)
                | (Ret (_, err), w2) \<Rightarrow>
                    (Ret (Some \<lparr>Lessor = lp, Name = name, Exp = exp, Key = keyHex\<rparr>,
                          errors_Wrap err ''inserting into database''), w2))))"

text \<open>One call of Acquire: its arguments, and what the clock and the random source give it.\<close>

record acquire_call =
  c_lessor :: "nat option"
  c_ctx :: "context"
  c_name :: string
  c_exp :: int
  c_now :: int
  c_rnd :: rand_result

datatype acquire_pc =
    Calling
  | Swept
  | Returned "(Lease option \<times> error option) outcome"

fun acquire_step :: "acquire_call \<Rightarrow> acquire_pc \<Rightarrow> 's world \<Rightarrow> acquire_pc \<times> 's world" where
  "acquire_step c Calling w =
     (case Acquire_sweep (c_lessor c) (c_ctx c) (c_now c) w of
        (Panic m, w1) \<Rightarrow> (Returned (Panic m), w1)
      | (Ret (Some e), w1) \<Rightarrow> (Returned (Ret (None, Some e)), w1)
      | (Ret None, w1) \<Rightarrow> (Swept, w1))"
| "acquire_step c Swept w =
     (case Acquire_insert (c_lessor c) (c_ctx c) (c_name c) (c_exp c) (c_rnd c) w of
        (r, w2) \<Rightarrow> (Returned r, w2))"
| "acquire_step c (Returned r) w = (Returned r, w)"

text \<open>
  A schedule says whose statement executes next: \<open>True\<close> for the first caller,
  \<open>False\<close> for the second.
\<close>

fun run2 ::
  "acquire_call \<Rightarrow> acquire_call \<Rightarrow> bool list \<Rightarrow> acquire_pc \<times> acquire_pc \<times> 's world
     \<Rightarrow> acquire_pc \<times> acquire_pc \<times> 's world" where
  "run2 c1 c2 [] cfg = cfg"
| "run2 c1 c2 (True # sch) (p1, p2, w) =
     (case acquire_step c1 p1 w of (p1', w') \<Rightarrow> run2 c1 c2 sch (p1', p2, w'))"
| "run2 c1 c2 (False # sch) (p1, p2, w) =
     (case acquire_step c2 p2 w of (p2', w') \<Rightarrow> run2 c1 c2 sch (p1, p2', w'))"

text \<open>The call returned a nil error.\<close>

fun succeeded :: "acquire_pc \<Rightarrow> bool" where
  "succeeded (Returned (Ret (lease, None))) = True"
| "succeeded pc = False"

text \<open>The call returned an error.\<close>

fun failed :: "acquire_pc \<Rightarrow> bool" where
  "failed (Returned (Ret (lease, Some e))) = True"
| "failed pc = False"

text \<open>Exactly one of the two calls returned a nil error, and the other an error.\<close>

definition one_call_wins :: "acquire_pc \<times> acquire_pc \<times> 's world \<Rightarrow> bool" where
  "one_call_wins cfg =
     (case cfg of (p1, p2, w') \<Rightarrow> (succeeded p1 \<and> failed p2) \<or> (failed p1 \<and> succeeded p2))"

section \<open>Concrete handles and worlds\<close>

definition refusing_db :: "unit ExecerContext" where
  "refusing_db ctx q args s = ((None, Some (Foreign ''connection refused'')), s)"

definition two_rows_db :: "unit ExecerContext" where
  "two_rows_db ctx q args s = ((Some (Result (2, None)), None), s)"

definition default_schema :: schema where
  "default_schema = \<lparr>tbl = ''leases'', name_col = ''name'', exp_col = ''exp'', key_col = ''key''\<rparr>"

text \<open>A zero-value Lessor around the store's handle, and a world with the given rows.\<close>

definition sql_lessor :: "sql_store Lessor" where
  "sql_lessor = \<lparr>db = Some sql_exec, Table = '''', Name = '''', Exp = '''', Key = ''''\<rparr>"

definition sql_world :: "row list \<Rightarrow> sql_store world" where
  "sql_world rs =
     \<lparr>heap = [sql_lessor], store = \<lparr>table_schema = default_schema, rows = rs\<rparr>, trace = []\<rparr>"

definition stub_world :: "unit ExecerContext \<Rightarrow> unit world" where
  "stub_world f =
     \<lparr>heap = [\<lparr>db = Some f, Table = '''', Name = '''', Exp = '''', Key = ''''\<rparr>],
      store = (), trace = []\<rparr>"

text \<open>Two calls of Acquire for the name job-1, through the same Lessor.\<close>

definition first_call :: acquire_call where
  "first_call =
     \<lparr>c_lessor = Some 0, c_ctx = Background, c_name = ''job-1'', c_exp = 50, c_now = 5,
      c_rnd = ([0x11, 0x11, 0x11, 0x11, 0x11, 0x11, 0x11, 0x11,
                0x11, 0x11, 0x11, 0x11, 0x11, 0x11, 0x11, 0x11], None)\<rparr>"

definition second_call :: acquire_call where
  "second_call =
     \<lparr>c_lessor = Some 0, c_ctx = Background, c_name = ''job-1'', c_exp = 60, c_now = 6,
      c_rnd = ([0x22, 0x22, 0x22, 0x22, 0x22, 0x22, 0x22, 0x22,
                0x22, 0x22, 0x22, 0x22, 0x22, 0x22, 0x22, 0x22], None)\<rparr>"

text \<open>A call for the same name whose clock reads 70, after the first call's lease has run out.\<close>

definition late_call :: acquire_call where
  "late_call =
     \<lparr>c_lessor = Some 0, c_ctx = Background, c_name = ''job-1'', c_exp = 90, c_now = 70,
      c_rnd = ([0x33, 0x33, 0x33, 0x33, 0x33, 0x33, 0x33, 0x33,
                0x33, 0x33, 0x33, 0x33, 0x33, 0x33, 0x33, 0x33], None)\<rparr>"

section \<open>The statements the package sends, as the store reads them\<close>

lemma Sprintf_sweep:
  "Sprintf Acquire_delQFmt [tableName l, expName l] = sql_delete_before (schema_of l)"
  by (simp add: Acquire_delQFmt_def sql_delete_before_def schema_of_def)

lemma Sprintf_insert:
  "Sprintf insQFmt [tableName l, nameName l, expName l, keyName l] = sql_insert (schema_of l)"
  by (simp add: insQFmt_def sql_insert_def schema_of_def)

lemma Sprintf_update:
  "Sprintf updQFmt [tableName l, expName l, nameName l, keyName l, expName l]
     = sql_update (schema_of l)"
  by (simp add: updQFmt_def sql_update_def schema_of_def)

lemma Sprintf_release:
  "Sprintf Release_delQFmt [tableName l, nameName l, keyName l] = sql_delete_held (schema_of l)"
  by (simp add: Release_delQFmt_def sql_delete_held_def schema_of_def)

lemma Acquire_split:
  "Acquire lp ctx name exp now rnd w =
     (case Acquire_sweep lp ctx now w of
        (Panic m, w1) \<Rightarrow> (Panic m, w1)
      | (Ret (Some e), w1) \<Rightarrow> (Ret (None, Some e), w1)
      | (Ret None, w1) \<Rightarrow> Acquire_insert lp ctx name exp rnd w1)"
  by (auto simp: Acquire_def Acquire_sweep_def Acquire_insert_def ExecContext_def deref_def
        errors_Wrap_def Let_def split: option.splits prod.splits outcome.splits)

lemma Acquire_sweep_attached:
  assumes "attached w a"
  shows "Acquire_sweep (Some a) ctx now w =
           (Ret None,
            w\<lparr>store := (store w)\<lparr>rows := filter (\<lambda>r. \<not> r_exp r < now) (rows (store w))\<rparr>,
              trace := trace w @ [(ctx, sql_delete_before (table_schema (store w)), [VTime now])]\<rparr>)"
  using assms
  by (simp add: Acquire_sweep_def deref_def attached_def ExecContext_def Sprintf_sweep
        affected_def errors_Wrap_def stale_def)

lemma Acquire_insert_attached:
  assumes "attached w a"
  shows "Acquire_insert (Some a) ctx name exp rnd w =
           (case snd rnd of
              Some err \<Rightarrow> (Ret (None, Some (WithMessage err ''computing key'')), w)
            | None \<Rightarrow>
                (let k = EncodeToString (Read_into (replicate 16 0) (fst rnd));
                     l = \<lparr>Lessor = Some a, Name = name, Exp = exp, Key = k\<rparr>;
                     t = trace w @ [(ctx, sql_insert (table_schema (store w)),
                                     [VStr name, VTime exp, VStr k])]
                 in if name \<in> r_name ` set (rows (store w))
                    then (Ret (Some l, Some (WithMessage (Foreign ''UNIQUE constraint failed'')
                                               ''inserting into database'')),
                          w\<lparr>store := store w, trace := t\<rparr>)
                    else (Ret (Some l, None),
                          w\<lparr>store := (store w)\<lparr>rows := rows (store w)
                                 @ [\<lparr>r_name = name, r_exp = exp, r_key = k\<rparr>]\<rparr>,
                            trace := t\<rparr>)))"
  using assms
  by (simp add: Acquire_insert_def deref_def attached_def ExecContext_def Sprintf_insert
        affected_def rejected_def errors_Wrap_def Let_def split: option.splits)

section \<open>Keys\<close>

lemma length_EncodeToString: "length (EncodeToString bs) = 2 * length bs"
  by (induction bs) auto

lemma high_nibble: "unat (drop_bit 4 (v :: 8 word)) < 16"
proof -
  have "unat v < 256" using unsigned_less [of v] by simp
  then have "unat v div 16 < 16" by simp
  moreover have "unat (drop_bit 4 v) = drop_bit 4 (unat v)"
    by (rule unat_drop_bit_eq)
  moreover have "drop_bit 4 (unat v) = unat v div 2 ^ 4"
    by (rule drop_bit_eq_div)
  ultimately show ?thesis by simp
qed

lemma low_nibble: "unat ((v :: 8 word) AND 0x0f) < 16"
proof -
  have "v AND 0x0f \<le> 0x0f" by (rule word_and_le1)
  then have "unat (v AND 0x0f) \<le> unat (0x0f :: 8 word)" by (simp add: word_le_nat_alt)
  then show ?thesis by simp
qed

lemma hextable_nth: "i < 16 \<Longrightarrow> hextable ! i \<in> set hextable"
  by (rule nth_mem) (simp add: hextable_def)

lemma set_EncodeToString: "set (EncodeToString bs) \<subseteq> set hextable"
  by (induction bs) (simp_all add: hextable_nth high_nibble low_nibble)

lemma length_Read_into: "length (Read_into buf d) = length buf"
  by (simp add: Read_into_def)

lemma Read_into_full: "length d = length buf \<Longrightarrow> Read_into buf d = d"
  by (simp add: Read_into_def)

section \<open>Renew and Release on the store\<close>

lemma Renew_attached:
  assumes "attached w a" and "Lessor l = Some a"
  shows "Renew (Some l) ctx newExp now w =
           (Ret (if \<exists>r\<in>set (rows (store w)). renewable (Name l) (Key l) now r
                 then None else Some (Fundamental ''could not renew'')),
            w\<lparr>store := (store w)\<lparr>rows :=
                  map (\<lambda>r. if renewable (Name l) (Key l) now r then r\<lparr>r_exp := newExp\<rparr> else r)
                    (rows (store w))\<rparr>,
              trace := trace w @ [(ctx, sql_update (table_schema (store w)),
                         [VTime newExp, VStr (Name l), VStr (Key l), VTime now])]\<rparr>)"
  using assms
  by (auto simp: Renew_def deref_def attached_def ExecContext_def Sprintf_update
        affected_def errors_New_def filter_empty_conv Let_def)

lemma map_unrenewable:
  "\<not> (\<exists>r\<in>set rs. renewable n k t r) \<Longrightarrow>
     map (\<lambda>r. if renewable n k t r then r\<lparr>r_exp := e\<rparr> else r) rs = rs"
  by (induction rs) auto

lemma Release_attached:
  assumes "attached w a" and "Lessor l = Some a"
  shows "Release (Some l) ctx w =
           (Ret None,
            w\<lparr>store := (store w)\<lparr>rows := filter (\<lambda>r. \<not> held (Name l) (Key l) r) (rows (store w))\<rparr>,
              trace := trace w @ [(ctx, sql_delete_held (table_schema (store w)),
                         [VStr (Name l), VStr (Key l)])]\<rparr>)"
  using assms
  by (simp add: Release_def deref_def attached_def ExecContext_def Sprintf_release
        affected_def errors_Wrap_def)

section \<open>The example worlds\<close>

lemma attached_sql_world: "attached (sql_world rs) 0"
  by (simp add: attached_def sql_world_def sql_lessor_def schema_of_def default_schema_def
        tableName_def nameName_def expName_def keyName_def
        defaultTable_def defaultName_def defaultExp_def defaultKey_def)

lemma store_sql_world: "rows (store (sql_world rs)) = rs"
  by (simp add: sql_world_def)

text \<open>The worlds of the examples are what the constructor makes of an empty heap.\<close>

lemma NewLessor_sql_world:
  "NewLessor (Some sql_exec)
     \<lparr>heap = [], store = \<lparr>table_schema = default_schema, rows = rs\<rparr>, trace = []\<rparr>
   = (Some 0, sql_world rs)"
  by (simp add: NewLessor_def sql_world_def sql_lessor_def)

lemma NewLessor_stub_world:
  "NewLessor (Some f) \<lparr>heap = [], store = (), trace = []\<rparr> = (Some 0, stub_world f)"
  by (simp add: NewLessor_def stub_world_def)

section \<open>Renew\<close>

text \<open>
  Claim C2. For a lease whose Lessor is attached to the store, Renew returns a nil error
  exactly when the table holds a row with the lease's Name and Key whose expiration is
  strictly later than the current time; in every other case it returns the
  ``could not renew'' error and leaves the store as it was. The update sets the
  expiration of the rows it matches and touches no other row.
\<close>

theorem Renew_succeeds_iff_row_held_unexpired:
  assumes "attached w a" and "Lessor l = Some a"
  shows "(fst (Renew (Some l) ctx newExp now w) = Ret None
            \<longleftrightarrow> (\<exists>r\<in>set (rows (store w)). r_name r = Name l \<and> r_key r = Key l \<and> now < r_exp r))
       \<and> (fst (Renew (Some l) ctx newExp now w) \<noteq> Ret None \<longrightarrow>
            fst (Renew (Some l) ctx newExp now w) = Ret (Some (Fundamental ''could not renew''))
            \<and> store (snd (Renew (Some l) ctx newExp now w)) = store w)
       \<and> rows (store (snd (Renew (Some l) ctx newExp now w))) =
           map (\<lambda>r. if r_name r = Name l \<and> r_key r = Key l \<and> now < r_exp r
                     then r\<lparr>r_exp := newExp\<rparr> else r)
             (rows (store w))"
proof -
  let ?held = "\<exists>r\<in>set (rows (store w)). renewable (Name l) (Key l) now r"
  have iff: "?held \<longleftrightarrow> (\<exists>r\<in>set (rows (store w)). r_name r = Name l \<and> r_key r = Key l \<and> now < r_exp r)"
    by (simp add: renewable_def)
  have upd: "rows (store (snd (Renew (Some l) ctx newExp now w))) =
           map (\<lambda>r. if r_name r = Name l \<and> r_key r = Key l \<and> now < r_exp r
                     then r\<lparr>r_exp := newExp\<rparr> else r)
             (rows (store w))"
    by (simp add: Renew_attached [OF assms] renewable_def)
  show ?thesis
  proof (cases ?held)
    case True
    then show ?thesis
      using iff upd by (simp add: Renew_attached [OF assms])
  next
    case False
    then have "map (\<lambda>r. if renewable (Name l) (Key l) now r then r\<lparr>r_exp := newExp\<rparr> else r)
                 (rows (store w)) = rows (store w)"
      by (rule map_unrenewable)
    with False show ?thesis
      using iff upd by (simp add: Renew_attached [OF assms])
  qed
qed

theorem Renew_succeeds_iff_row_held_unexpired_witness:
  "attached (sql_world [\<lparr>r_name = ''job-1'', r_exp = 10, r_key = ''k1''\<rparr>]) 0
   \<and> fst (Renew (Some \<lparr>Lessor = Some 0, Name = ''job-1'', Exp = 10, Key = ''k1''\<rparr>) Background 20 9
            (sql_world [\<lparr>r_name = ''job-1'', r_exp = 10, r_key = ''k1''\<rparr>])) = Ret None
   \<and> fst (Renew (Some \<lparr>Lessor = Some 0, Name = ''job-1'', Exp = 10, Key = ''k1''\<rparr>) Background 25 21
            (sql_world [\<lparr>r_name = ''job-1'', r_exp = 10, r_key = ''k1''\<rparr>]))
       = Ret (Some (Fundamental ''could not renew''))"
  using Renew_succeeds_iff_row_held_unexpired
          [of "sql_world [\<lparr>r_name = ''job-1'', r_exp = 10, r_key = ''k1''\<rparr>]" 0
              "\<lparr>Lessor = Some 0, Name = ''job-1'', Exp = 10, Key = ''k1''\<rparr>" Background 20 9]
        Renew_succeeds_iff_row_held_unexpired
          [of "sql_world [\<lparr>r_name = ''job-1'', r_exp = 10, r_key = ''k1''\<rparr>]" 0
              "\<lparr>Lessor = Some 0, Name = ''job-1'', Exp = 10, Key = ''k1''\<rparr>" Background 25 21]
  by (simp add: attached_sql_world store_sql_world)

text \<open>
  Claim C3, as stated, fails: a handle that reports two affected rows makes Renew return
  a nil error.
\<close>

theorem Renew_two_rows_counterexample:
  "fst (two_rows_db Background
          (Sprintf updQFmt [''leases'', ''exp'', ''name'', ''key'', ''exp''])
          [VTime 20, VStr ''job-1'', VStr ''k1'', VTime 5] ())
     = (Some (Result (2, None)), None)
   \<and> fst (Renew (Some \<lparr>Lessor = Some 0, Name = ''job-1'', Exp = 10, Key = ''k1''\<rparr>) Background 20 5
            (stub_world two_rows_db)) = Ret None"
  by (simp add: Renew_def deref_def stub_world_def ExecContext_def two_rows_db_def)

text \<open>
  Claim C3, amended. Whatever the handle does: Renew returns a nil error exactly when the
  update and the count both succeed and the count is not zero (one, or more than one),
  and it returns the ``could not renew'' error exactly when they succeed and the count
  is zero.
\<close>

theorem Renew_result_by_rows_affected:
  assumes "deref w (Lessor l) = Some lessor" and "db lessor = Some f"
      and "f ctx (Sprintf updQFmt [tableName lessor, expName lessor, nameName lessor,
                                   keyName lessor, expName lessor])
             [VTime newExp, VStr (Name l), VStr (Key l), VTime now] (store w) = ((res, err), s')"
  shows "(fst (Renew (Some l) ctx newExp now w) = Ret None
            \<longleftrightarrow> err = None \<and> (\<exists>aff. res = Some (Result (aff, None)) \<and> aff \<noteq> 0))
       \<and> (fst (Renew (Some l) ctx newExp now w) = Ret (Some (Fundamental ''could not renew''))
            \<longleftrightarrow> err = None \<and> res = Some (Result (0, None)))"
proof -
  have eq: "fst (Renew (Some l) ctx newExp now w) =
          (case err of
             Some e \<Rightarrow> Ret (Some (WithMessage e ''updating database''))
           | None \<Rightarrow>
               (case res of
                  None \<Rightarrow> Panic ''invalid memory address or nil pointer dereference''
                | Some r \<Rightarrow>
                    (case RowsAffected r of
                       (aff, Some e) \<Rightarrow> Ret (Some (WithMessage e ''counting affected rows''))
                     | (aff, None) \<Rightarrow>
                         if aff = 0 then Ret (Some (Fundamental ''could not renew''))
                         else Ret None)))"
    using assms
    by (simp add: Renew_def ExecContext_def errors_Wrap_def errors_New_def Let_def
          split: option.splits prod.splits)
  show ?thesis
  proof (cases err)
    case (Some e)
    then show ?thesis
      unfolding eq by simp
  next
    case no_err: None
    show ?thesis
    proof (cases res)
      case None
      then show ?thesis
        unfolding eq using no_err by simp
    next
      case (Some r)
      obtain aff rerr where r: "r = Result (aff, rerr)"
        by (cases r) auto
      show ?thesis
        unfolding eq using no_err Some r by (cases rerr) auto
    qed
  qed
qed

theorem Renew_result_by_rows_affected_witness:
  "fst (Renew (Some \<lparr>Lessor = Some 0, Name = ''job-1'', Exp = 10, Key = ''k1''\<rparr>) Background 20 5
          (stub_world two_rows_db)) = Ret None
   \<and> fst (Renew (Some \<lparr>Lessor = Some 0, Name = ''job-1'', Exp = 10, Key = ''k1''\<rparr>) Background 20 5
          (stub_world two_rows_db)) \<noteq> Ret (Some (Fundamental ''could not renew''))"
  using Renew_result_by_rows_affected
          [of "stub_world two_rows_db" "\<lparr>Lessor = Some 0, Name = ''job-1'', Exp = 10, Key = ''k1''\<rparr>"
              "\<lparr>db = Some two_rows_db, Table = '''', Name = '''', Exp = '''', Key = ''''\<rparr>"
              two_rows_db Background 20 5 "Some (Result (2, None))" None "()"]
  by (simp add: deref_def stub_world_def two_rows_db_def)

section \<open>Context\<close>

text \<open>
  Claim C8. The comment on Context promises a deadline equal to the lease's expiration.
  Under a parent whose deadline is 5, the context of a lease that expires at 10 has the
  deadline 5: \<open>WithDeadline\<close> hands back a plain cancellable child of the parent, which
  keeps the parent's deadline.
\<close>

theorem Context_under_earlier_parent_deadline:
  "fst (Context (Some \<lparr>Lessor = Some 0, Name = ''job-1'', Exp = 10, Key = ''k1''\<rparr>)
          (TimerCtx Background 5) (sql_world []))
     = Ret (CancelCtx (TimerCtx Background 5), CancelFunc (CancelCtx (TimerCtx Background 5)))
   \<and> Deadline (CancelCtx (TimerCtx Background 5)) = Some 5
   \<and> Exp \<lparr>Lessor = Some 0, Name = ''job-1'', Exp = 10, Key = ''k1''\<rparr> = 10"
  by (simp add: Context_def WithDeadline_def WithCancel_def)

text \<open>
  What Context does for every lease and every parent context other than nil: it returns
  a cancellable child of that parent whose deadline is the earlier of the lease's Exp and
  the parent's own deadline, and the world comes back as it was: no statement is sent,
  and the lease's Lessor is not even looked up. The deadline is the lease's Exp exactly
  when the parent has no earlier one.
\<close>

lemma Context_deadline:
  assumes "ctx \<noteq> NilContext"
  shows "\<exists>child. Context (Some l) ctx w = (Ret (child, CancelFunc child), w)
           \<and> Parent child = Some ctx
           \<and> Deadline child =
               Some (case Deadline ctx of None \<Rightarrow> Exp l | Some cur \<Rightarrow> min cur (Exp l))"
  using assms
  by (auto simp: Context_def WithDeadline_def WithCancel_def split: option.splits)

lemma Context_deadline_is_Exp:
  assumes "ctx \<noteq> NilContext" and "\<forall>cur. Deadline ctx = Some cur \<longrightarrow> \<not> cur < Exp l"
  shows "Context (Some l) ctx w = (Ret (TimerCtx ctx (Exp l), CancelFunc (TimerCtx ctx (Exp l))), w)"
  using assms
  by (auto simp: Context_def WithDeadline_def split: option.splits)

section \<open>The Lessor is read-only\<close>

text \<open>
  Claim C9. Acquire, Renew, Release and Context leave every allocated Lessor as it was,
  on every path, the panics included: no field is written, and a default that an accessor
  resolved is not stored back. The accessors themselves are functions of the Lessor's
  value.
\<close>

theorem Lessor_never_modified:
  "heap (snd (Acquire lp ctx name exp now rnd w)) = heap w
   \<and> heap (snd (Renew lo ctx newExp now w)) = heap w
   \<and> heap (snd (Release lo ctx w)) = heap w
   \<and> heap (snd (Context lo ctx w)) = heap w"
proof -
  have "heap (snd (Acquire lp ctx name exp now rnd w)) = heap w"
    by (simp add: Acquire_def ExecContext_def Let_def
          split: option.splits prod.splits outcome.splits)
  moreover have "heap (snd (Renew lo ctx newExp now w)) = heap w"
    by (simp add: Renew_def ExecContext_def Let_def
          split: option.splits prod.splits outcome.splits)
  moreover have "heap (snd (Release lo ctx w)) = heap w"
    by (simp add: Release_def ExecContext_def Let_def
          split: option.splits prod.splits outcome.splits)
  moreover have "heap (snd (Context lo ctx w)) = heap w"
    by (simp add: Context_def split: option.splits)
  ultimately show ?thesis by simp
qed

text \<open>
  A zero-value Lessor: Acquire sends its statements under the default names, and the
  Lessor's fields are as empty afterwards as before.
\<close>

lemma defaults_resolved_not_stored:
  "map (fst \<circ> snd) (trace (snd (Acquire (Some 0) Background ''job-1'' 50 5 ([], None) (sql_world []))))
     = [''DELETE FROM leases WHERE exp < $1'',
        ''INSERT INTO leases (name, exp, key) VALUES ($1, $2, $3)'']
   \<and> heap (snd (Acquire (Some 0) Background ''job-1'' 50 5 ([], None) (sql_world [])))
     = [\<lparr>db = Some sql_exec, Table = '''', Name = '''', Exp = '''', Key = ''''\<rparr>]"
  by (simp add: Acquire_def deref_def sql_world_def sql_lessor_def ExecContext_def
        Acquire_delQFmt_def insQFmt_def tableName_def nameName_def expName_def keyName_def
        defaultTable_def defaultName_def defaultExp_def defaultKey_def
        sql_delete_before_def sql_insert_def default_schema_def affected_def rejected_def
        errors_Wrap_def Let_def del: EncodeToString.simps)

section \<open>Release\<close>

text \<open>
  Claim C7. Release sends the delete for the lease's Name and Key and returns the wrapped
  error of that statement alone: the result the handle reports plays no part. On the
  store, Release returns a nil error whether or not a row is deleted, the table afterwards
  holds no row with that Name and Key, and a second Release on the same handle returns a
  nil error again and changes nothing.
\<close>

theorem Release_idempotent:
  "(deref w1 (Lessor l1) = Some lessor \<and> db lessor = Some f \<longrightarrow>
      fst (Release (Some l1) ctx w1) =
        Ret (errors_Wrap
               (snd (fst (f ctx (Sprintf Release_delQFmt
                                   [tableName lessor, nameName lessor, keyName lessor])
                            [VStr (Name l1), VStr (Key l1)] (store w1))))
               ''deleting from database''))
   \<and> (attached w a \<and> Lessor l = Some a \<longrightarrow>
        fst (Release (Some l) ctx w) = Ret None
        \<and> rows (store (snd (Release (Some l) ctx w)))
            = filter (\<lambda>r. \<not> (r_name r = Name l \<and> r_key r = Key l)) (rows (store w))
        \<and> fst (Release (Some l) ctx' (snd (Release (Some l) ctx w))) = Ret None
        \<and> store (snd (Release (Some l) ctx' (snd (Release (Some l) ctx w))))
            = store (snd (Release (Some l) ctx w)))"
proof -
  have generic: "fst (Release (Some l1) ctx w1) =
        Ret (errors_Wrap
               (snd (fst (f ctx (Sprintf Release_delQFmt
                                   [tableName lessor, nameName lessor, keyName lessor])
                            [VStr (Name l1), VStr (Key l1)] (store w1))))
               ''deleting from database'')"
    if "deref w1 (Lessor l1) = Some lessor" and "db lessor = Some f"
    using that by (simp add: Release_def ExecContext_def Let_def split: prod.splits)
  have sql: "fst (Release (Some l) ctx w) = Ret None
        \<and> rows (store (snd (Release (Some l) ctx w)))
            = filter (\<lambda>r. \<not> (r_name r = Name l \<and> r_key r = Key l)) (rows (store w))
        \<and> fst (Release (Some l) ctx' (snd (Release (Some l) ctx w))) = Ret None
        \<and> store (snd (Release (Some l) ctx' (snd (Release (Some l) ctx w))))
            = store (snd (Release (Some l) ctx w))"
    if att: "attached w a" and l: "Lessor l = Some a"
  proof -
    let ?w' = "snd (Release (Some l) ctx w)"
    have first: "Release (Some l) ctx w =
           (Ret None,
            w\<lparr>store := (store w)\<lparr>rows := filter (\<lambda>r. \<not> held (Name l) (Key l) r) (rows (store w))\<rparr>,
              trace := trace w @ [(ctx, sql_delete_held (table_schema (store w)),
                         [VStr (Name l), VStr (Key l)])]\<rparr>)"
      by (rule Release_attached [OF att l])
    have att': "attached ?w' a"
      using att by (simp add: first attached_def)
    have second: "Release (Some l) ctx' ?w' =
           (Ret None,
            ?w'\<lparr>store := (store ?w')\<lparr>rows := filter (\<lambda>r. \<not> held (Name l) (Key l) r) (rows (store ?w'))\<rparr>,
              trace := trace ?w' @ [(ctx', sql_delete_held (table_schema (store ?w')),
                         [VStr (Name l), VStr (Key l)])]\<rparr>)"
      by (rule Release_attached [OF att' l])
    have rows': "rows (store ?w') = filter (\<lambda>r. \<not> held (Name l) (Key l) r) (rows (store w))"
      by (simp add: first)
    have "filter (\<lambda>r. \<not> held (Name l) (Key l) r) (rows (store ?w')) = rows (store ?w')"
      by (simp add: rows')
    then have "store (snd (Release (Some l) ctx' ?w')) = store ?w'"
      by (simp add: second)
    moreover have "fst (Release (Some l) ctx' ?w') = Ret None"
      by (simp add: second)
    moreover have "fst (Release (Some l) ctx w) = Ret None"
      by (simp add: first)
    moreover have "rows (store ?w')
            = filter (\<lambda>r. \<not> (r_name r = Name l \<and> r_key r = Key l)) (rows (store w))"
      by (simp add: rows' held_def)
    ultimately show ?thesis by simp
  qed
  show ?thesis
    using generic sql by blast
qed

section \<open>Acquire\<close>

lemma Acquire_attached:
  assumes "attached w a"
  shows "Acquire (Some a) ctx name exp now rnd w =
           Acquire_insert (Some a) ctx name exp rnd
             (w\<lparr>store := (store w)\<lparr>rows := filter (\<lambda>r. \<not> r_exp r < now) (rows (store w))\<rparr>,
                trace := trace w @ [(ctx, sql_delete_before (table_schema (store w)), [VTime now])]\<rparr>)"
  by (simp add: Acquire_split Acquire_sweep_attached [OF assms])

lemma Acquire_attached_rows:
  assumes "attached w a"
  shows "rows (store (snd (Acquire (Some a) ctx name exp now rnd w))) =
           filter (\<lambda>r. \<not> r_exp r < now) (rows (store w))
           @ (case fst (Acquire (Some a) ctx name exp now rnd w) of
                Ret (lease, None) \<Rightarrow>
                  [\<lparr>r_name = name, r_exp = exp,
                    r_key = EncodeToString (Read_into (replicate 16 0) (fst rnd))\<rparr>]
              | _ \<Rightarrow> [])"
proof -
  let ?w1 = "w\<lparr>store := (store w)\<lparr>rows := filter (\<lambda>r. \<not> r_exp r < now) (rows (store w))\<rparr>,
                trace := trace w @ [(ctx, sql_delete_before (table_schema (store w)), [VTime now])]\<rparr>"
  have att1: "attached ?w1 a"
    using assms by (simp add: attached_def)
  show ?thesis
    by (simp add: Acquire_attached [OF assms] Acquire_insert_attached [OF att1] Let_def
          split: option.splits)
qed

lemma Acquire_attached_result:
  assumes "attached w a"
  shows "fst (Acquire (Some a) ctx name exp now rnd w) =
           (case snd rnd of
              Some err \<Rightarrow> Ret (None, Some (WithMessage err ''computing key''))
            | None \<Rightarrow>
                Ret (Some \<lparr>Lessor = Some a, Name = name, Exp = exp,
                           Key = EncodeToString (Read_into (replicate 16 0) (fst rnd))\<rparr>,
                     if name \<in> r_name ` set (filter (\<lambda>r. \<not> r_exp r < now) (rows (store w)))
                     then Some (WithMessage (Foreign ''UNIQUE constraint failed'')
                                  ''inserting into database'')
                     else None))"
proof -
  let ?w1 = "w\<lparr>store := (store w)\<lparr>rows := filter (\<lambda>r. \<not> r_exp r < now) (rows (store w))\<rparr>,
                trace := trace w @ [(ctx, sql_delete_before (table_schema (store w)), [VTime now])]\<rparr>"
  have att1: "attached ?w1 a"
    using assms by (simp add: attached_def)
  show ?thesis
    by (simp add: Acquire_attached [OF assms] Acquire_insert_attached [OF att1] Let_def
          split: option.splits)
qed

lemma Acquire_generic_sweep_failed:
  assumes "deref w lp = Some l" and "db l = Some f"
      and "f ctx (Sprintf Acquire_delQFmt [tableName l, expName l]) [VTime now] (store w)
             = ((res, Some e), s1)"
  shows "Acquire lp ctx name exp now rnd w =
           (Ret (None, Some (WithMessage e ''deleting stale leases'')),
            w\<lparr>store := s1,
              trace := trace w @ [(ctx, Sprintf Acquire_delQFmt [tableName l, expName l],
                                   [VTime now])]\<rparr>)"
  using assms by (simp add: Acquire_def ExecContext_def errors_Wrap_def Let_def)

lemma Acquire_generic_rand_failed:
  assumes "deref w lp = Some l" and "db l = Some f"
      and "f ctx (Sprintf Acquire_delQFmt [tableName l, expName l]) [VTime now] (store w)
             = ((res, None), s1)"
      and "snd rnd = Some e"
  shows "Acquire lp ctx name exp now rnd w =
           (Ret (None, Some (WithMessage e ''computing key'')),
            w\<lparr>store := s1,
              trace := trace w @ [(ctx, Sprintf Acquire_delQFmt [tableName l, expName l],
                                   [VTime now])]\<rparr>)"
  using assms by (simp add: Acquire_def ExecContext_def errors_Wrap_def Let_def)

lemma Acquire_generic_trace:
  assumes "deref w lp = Some l" and "db l = Some f"
  shows "take (Suc (length (trace w))) (trace (snd (Acquire lp ctx name exp now rnd w)))
           = trace w @ [(ctx, Sprintf Acquire_delQFmt [tableName l, expName l], [VTime now])]"
  using assms
  by (simp add: Acquire_def ExecContext_def Let_def
        split: option.splits prod.splits outcome.splits)

text \<open>
  Claim C1, as stated, fails: when the sweep is refused, Acquire returns the error and a
  nil Lease.
\<close>

theorem Acquire_nil_lease_counterexample:
  "fst (Acquire (Some 0) Background ''job-1'' 10 5 ([], None) (stub_world refusing_db))
   = Ret (None, Some (WithMessage (Foreign ''connection refused'') ''deleting stale leases''))"
  by (simp add: Acquire_def deref_def stub_world_def ExecContext_def refusing_db_def
        errors_Wrap_def)

text \<open>
  Claim C1, amended. A call of Acquire that returns an error returns it from one of three
  places. After a failed sweep and after a failed key generation the Lease is nil. After
  a failed insert the Lease is there and populated: the Lessor it was asked of, the name
  and expiration requested, the key generated.
\<close>

theorem Acquire_error_lease:
  assumes "fst (Acquire lp ctx name exp now rnd w) = Ret (lease, Some e)"
  shows "(\<exists>c. e = WithMessage c ''deleting stale leases'' \<and> lease = None)
       \<or> (\<exists>c. e = WithMessage c ''computing key'' \<and> snd rnd = Some c \<and> lease = None)
       \<or> (\<exists>c. e = WithMessage c ''inserting into database'' \<and> snd rnd = None
              \<and> lease = Some \<lparr>Lessor = lp, Name = name, Exp = exp,
                               Key = EncodeToString (Read_into (replicate 16 0) (fst rnd))\<rparr>)"
  using assms
  by (auto simp: Acquire_def ExecContext_def errors_Wrap_def Let_def
           split: option.splits prod.splits outcome.splits)

lemma Acquire_held_example:
  "fst (Acquire (Some 0) Background ''job-1'' 50 5 ([], None)
          (sql_world [\<lparr>r_name = ''job-1'', r_exp = 100, r_key = ''k0''\<rparr>]))
     = Ret (Some \<lparr>Lessor = Some 0, Name = ''job-1'', Exp = 50,
                  Key = EncodeToString (Read_into (replicate 16 0) [])\<rparr>,
            Some (WithMessage (Foreign ''UNIQUE constraint failed'') ''inserting into database''))"
  by (simp add: Acquire_attached_result [OF attached_sql_world] store_sql_world)

theorem Acquire_error_lease_witness:
  "fst (Acquire (Some 0) Background ''job-1'' 50 5 ([], None)
          (sql_world [\<lparr>r_name = ''job-1'', r_exp = 100, r_key = ''k0''\<rparr>]))
     = Ret (Some \<lparr>Lessor = Some 0, Name = ''job-1'', Exp = 50,
                  Key = EncodeToString (Read_into (replicate 16 0) [])\<rparr>,
            Some (WithMessage (Foreign ''UNIQUE constraint failed'') ''inserting into database''))
   \<and> (\<exists>c. WithMessage (Foreign ''UNIQUE constraint failed'') ''inserting into database''
            = WithMessage c ''inserting into database'')"
  using Acquire_error_lease [OF Acquire_held_example] Acquire_held_example
  by simp

text \<open>
  Claim C4. The first statement a call of Acquire sends is the delete of the rows whose
  expiration is before the current time, whatever the name asked for; when the handle
  refuses it, Acquire returns that error with a nil Lease and has sent nothing else. On
  the store the delete removes the expired rows of every name and keeps the others,
  and the table stays swept when the insert that follows is refused.
\<close>

theorem Acquire_sweeps_first:
  "(deref w1 lp = Some l \<and> db l = Some f \<longrightarrow>
      take (Suc (length (trace w1))) (trace (snd (Acquire lp ctx1 name1 exp1 now1 rnd1 w1)))
        = trace w1 @ [(ctx1, Sprintf Acquire_delQFmt [tableName l, expName l], [VTime now1])]
      \<and> (\<forall>res e s1.
            f ctx1 (Sprintf Acquire_delQFmt [tableName l, expName l]) [VTime now1] (store w1)
              = ((res, Some e), s1) \<longrightarrow>
            Acquire lp ctx1 name1 exp1 now1 rnd1 w1 =
              (Ret (None, Some (WithMessage e ''deleting stale leases'')),
               w1\<lparr>store := s1,
                  trace := trace w1 @ [(ctx1, Sprintf Acquire_delQFmt [tableName l, expName l],
                                         [VTime now1])]\<rparr>)))
   \<and> (attached w a \<longrightarrow>
        rows (store (snd (Acquire (Some a) ctx name exp now rnd w))) =
          filter (\<lambda>r. \<not> r_exp r < now) (rows (store w))
          @ (case fst (Acquire (Some a) ctx name exp now rnd w) of
               Ret (lease, None) \<Rightarrow>
                 [\<lparr>r_name = name, r_exp = exp,
                   r_key = EncodeToString (Read_into (replicate 16 0) (fst rnd))\<rparr>]
             | _ \<Rightarrow> []))"
  using Acquire_generic_trace [of w1 lp l f ctx1 name1 exp1 now1 rnd1]
        Acquire_generic_sweep_failed [of w1 lp l f ctx1 now1 _ _ _ name1 exp1 rnd1]
        Acquire_attached_rows [of w a ctx name exp now rnd]
  by blast

theorem Acquire_sweeps_first_witness:
  "deref (stub_world refusing_db) (Some 0)
     = Some \<lparr>db = Some refusing_db, Table = '''', Name = '''', Exp = '''', Key = ''''\<rparr>
   \<and> Acquire (Some 0) Background ''job-2'' 50 5 ([], None) (stub_world refusing_db)
       = (Ret (None, Some (WithMessage (Foreign ''connection refused'') ''deleting stale leases'')),
          (stub_world refusing_db)
            \<lparr>store := (), trace := [(Background, ''DELETE FROM leases WHERE exp < $1'', [VTime 5])]\<rparr>)
   \<and> attached (sql_world [\<lparr>r_name = ''job-1'', r_exp = 3, r_key = ''k1''\<rparr>,
                            \<lparr>r_name = ''job-2'', r_exp = 100, r_key = ''k2''\<rparr>]) 0
   \<and> rows (store (snd (Acquire (Some 0) Background ''job-2'' 50 5 ([], None)
        (sql_world [\<lparr>r_name = ''job-1'', r_exp = 3, r_key = ''k1''\<rparr>,
                    \<lparr>r_name = ''job-2'', r_exp = 100, r_key = ''k2''\<rparr>]))))
       = [\<lparr>r_name = ''job-2'', r_exp = 100, r_key = ''k2''\<rparr>]"
proof -
  let ?l = "\<lparr>db = Some refusing_db, Table = '''', Name = '''', Exp = '''', Key = ''''\<rparr>"
  let ?rs = "[\<lparr>r_name = ''job-1'', r_exp = 3, r_key = ''k1''\<rparr>,
              \<lparr>r_name = ''job-2'', r_exp = 100, r_key = ''k2''\<rparr>]"
  have d: "deref (stub_world refusing_db) (Some 0) = Some ?l"
    by (simp add: deref_def stub_world_def)
  have f: "refusing_db Background (Sprintf Acquire_delQFmt [tableName ?l, expName ?l]) [VTime 5]
             (store (stub_world refusing_db)) = ((None, Some (Foreign ''connection refused'')), ())"
    by (simp add: refusing_db_def)
  have q: "Sprintf Acquire_delQFmt [tableName ?l, expName ?l] = ''DELETE FROM leases WHERE exp < $1''"
    by (simp add: Acquire_delQFmt_def tableName_def expName_def defaultTable_def defaultExp_def)
  have t: "trace (stub_world refusing_db) = []"
    by (simp add: stub_world_def)
  have r: "fst (Acquire (Some 0) Background ''job-2'' 50 5 ([], None) (sql_world ?rs))
             = Ret (Some \<lparr>Lessor = Some 0, Name = ''job-2'', Exp = 50,
                          Key = EncodeToString (Read_into (replicate 16 0) [])\<rparr>,
                    Some (WithMessage (Foreign ''UNIQUE constraint failed'')
                            ''inserting into database''))"
    by (simp add: Acquire_attached_result [OF attached_sql_world] store_sql_world)
  from Acquire_sweeps_first
         [of "stub_world refusing_db" "Some 0" ?l refusing_db Background "''job-2''" 50 5 "([], None)"
             "sql_world ?rs" 0 Background "''job-2''" 50 5 "([], None)"]
  show ?thesis
    using d f attached_sql_world [of ?rs]
    by (simp add: q t r store_sql_world)
qed

lemma Acquire_attached_trace:
  assumes "attached w a" and "snd rnd = None"
  shows "trace (snd (Acquire (Some a) ctx name exp now rnd w)) =
           trace w @
           [(ctx, Sprintf Acquire_delQFmt [tableName (heap w ! a), expName (heap w ! a)],
             [VTime now]),
            (ctx, Sprintf insQFmt [tableName (heap w ! a), nameName (heap w ! a),
                                   expName (heap w ! a), keyName (heap w ! a)],
             [VStr name, VTime exp,
              VStr (EncodeToString (Read_into (replicate 16 0) (fst rnd)))])]"
proof -
  let ?w1 = "w\<lparr>store := (store w)\<lparr>rows := filter (\<lambda>r. \<not> r_exp r < now) (rows (store w))\<rparr>,
                trace := trace w @ [(ctx, sql_delete_before (table_schema (store w)), [VTime now])]\<rparr>"
  have att1: "attached ?w1 a"
    using assms(1) by (simp add: attached_def)
  have sch: "schema_of (heap w ! a) = table_schema (store w)"
    using assms(1) by (simp add: attached_def)
  show ?thesis
    using assms(2)
    by (simp add: Acquire_attached [OF assms(1)] Acquire_insert_attached [OF att1] Let_def
          Sprintf_sweep Sprintf_insert sch)
qed

lemma example_key:
  "EncodeToString [0x00, 0x01, 0x02, 0x03, 0x04, 0x05, 0x06, 0x07,
                   0x08, 0x09, 0x0a, 0x0b, 0x0c, 0x0d, 0xfe, 0xff]
     = ''000102030405060708090a0b0c0dfeff''"
  by (simp add: hextable_def)

text \<open>
  Claim C6, as stated, fails at the boundary. A row whose expiration equals the current
  time is expired as far as Renew goes, which is refused on it; but the sweep deletes only
  what is strictly before the current time, so the row is still there and Acquire for its
  name is refused by the unique index.
\<close>

theorem Acquire_boundary_row_counterexample:
  "fst (Renew (Some \<lparr>Lessor = Some 0, Name = ''job-1'', Exp = 5, Key = ''k1''\<rparr>) Background 20 5
          (sql_world [\<lparr>r_name = ''job-1'', r_exp = 5, r_key = ''k1''\<rparr>]))
     = Ret (Some (Fundamental ''could not renew''))
   \<and> fst (Acquire (Some 0) Background ''job-1'' 50 5
            ([0x00, 0x01, 0x02, 0x03, 0x04, 0x05, 0x06, 0x07,
              0x08, 0x09, 0x0a, 0x0b, 0x0c, 0x0d, 0xfe, 0xff], None)
            (sql_world [\<lparr>r_name = ''job-1'', r_exp = 5, r_key = ''k1''\<rparr>]))
     = Ret (Some \<lparr>Lessor = Some 0, Name = ''job-1'', Exp = 50,
                  Key = ''000102030405060708090a0b0c0dfeff''\<rparr>,
            Some (WithMessage (Foreign ''UNIQUE constraint failed'') ''inserting into database''))"
proof -
  let ?rs = "[\<lparr>r_name = ''job-1'', r_exp = 5, r_key = ''k1''\<rparr>]"
  let ?bs = "[0x00, 0x01, 0x02, 0x03, 0x04, 0x05, 0x06, 0x07,
              0x08, 0x09, 0x0a, 0x0b, 0x0c, 0x0d, 0xfe, 0xff] :: 8 word list"
  have renew: "fst (Renew (Some \<lparr>Lessor = Some 0, Name = ''job-1'', Exp = 5, Key = ''k1''\<rparr>)
                      Background 20 5 (sql_world ?rs))
                 = Ret (Some (Fundamental ''could not renew''))"
    by (simp add: Renew_attached [OF attached_sql_world] store_sql_world renewable_def)
  have b: "Read_into (replicate 16 0) ?bs = ?bs"
    by (simp add: Read_into_def)
  have acquire: "fst (Acquire (Some 0) Background ''job-1'' 50 5 (?bs, None) (sql_world ?rs))
     = Ret (Some \<lparr>Lessor = Some 0, Name = ''job-1'', Exp = 50,
                  Key = ''000102030405060708090a0b0c0dfeff''\<rparr>,
            Some (WithMessage (Foreign ''UNIQUE constraint failed'') ''inserting into database''))"
    by (simp add: Acquire_attached_result [OF attached_sql_world] store_sql_world b example_key
          del: EncodeToString.simps)
  show ?thesis
    using renew acquire by (rule conjI)
qed

text \<open>
  Claim C6, amended. On the store, with the random source delivering, Acquire returns a
  nil error exactly when every row of the requested name has an expiration strictly
  before the current time. It then returns a Lease with the requested name and
  expiration whose key is the hex encoding of the sixteen bytes of the key buffer,
  thirty-two characters, all of them hex digits, and the table afterwards is the swept
  table followed by the row of that name, expiration and key. Otherwise the insert is
  refused and the table is just swept. Either way the statements sent are the sweep and
  then the insert. When the random source fails, Acquire returns that error with a nil
  Lease, and the sweep is the only statement it has sent.
\<close>

theorem Acquire_free_name:
  "(attached w a \<and> snd rnd = None \<longrightarrow>
      (fst (Acquire (Some a) ctx name exp now rnd w)
         = Ret (Some \<lparr>Lessor = Some a, Name = name, Exp = exp,
                      Key = EncodeToString (Read_into (replicate 16 0) (fst rnd))\<rparr>, None)
       \<longleftrightarrow> (\<forall>r\<in>set (rows (store w)). r_name r = name \<longrightarrow> r_exp r < now))
      \<and> ((\<forall>r\<in>set (rows (store w)). r_name r = name \<longrightarrow> r_exp r < now) \<longrightarrow>
            rows (store (snd (Acquire (Some a) ctx name exp now rnd w)))
              = filter (\<lambda>r. \<not> r_exp r < now) (rows (store w))
                @ [\<lparr>r_name = name, r_exp = exp,
                    r_key = EncodeToString (Read_into (replicate 16 0) (fst rnd))\<rparr>])
      \<and> (\<not> (\<forall>r\<in>set (rows (store w)). r_name r = name \<longrightarrow> r_exp r < now) \<longrightarrow>
            fst (Acquire (Some a) ctx name exp now rnd w)
              = Ret (Some \<lparr>Lessor = Some a, Name = name, Exp = exp,
                           Key = EncodeToString (Read_into (replicate 16 0) (fst rnd))\<rparr>,
                     Some (WithMessage (Foreign ''UNIQUE constraint failed'')
                             ''inserting into database''))
            \<and> rows (store (snd (Acquire (Some a) ctx name exp now rnd w)))
              = filter (\<lambda>r. \<not> r_exp r < now) (rows (store w)))
      \<and> trace (snd (Acquire (Some a) ctx name exp now rnd w)) =
           trace w @
           [(ctx, Sprintf Acquire_delQFmt [tableName (heap w ! a), expName (heap w ! a)],
             [VTime now]),
            (ctx, Sprintf insQFmt [tableName (heap w ! a), nameName (heap w ! a),
                                   expName (heap w ! a), keyName (heap w ! a)],
             [VStr name, VTime exp,
              VStr (EncodeToString (Read_into (replicate 16 0) (fst rnd)))])]
      \<and> length (EncodeToString (Read_into (replicate 16 0) (fst rnd))) = 32
      \<and> set (EncodeToString (Read_into (replicate 16 0) (fst rnd))) \<subseteq> set ''0123456789abcdef''
      \<and> (length (fst rnd) = 16 \<longrightarrow> Read_into (replicate 16 0) (fst rnd) = fst rnd))
   \<and> (deref w1 lp = Some l \<and> db l = Some f
        \<and> f ctx1 (Sprintf Acquire_delQFmt [tableName l, expName l]) [VTime now1] (store w1)
            = ((res, None), s1)
        \<and> snd rnd1 = Some e \<longrightarrow>
        Acquire lp ctx1 name1 exp1 now1 rnd1 w1 =
          (Ret (None, Some (WithMessage e ''computing key'')),
           w1\<lparr>store := s1,
              trace := trace w1 @ [(ctx1, Sprintf Acquire_delQFmt [tableName l, expName l],
                                     [VTime now1])]\<rparr>))"
proof -
  let ?free = "\<forall>r\<in>set (rows (store w)). r_name r = name \<longrightarrow> r_exp r < now"
  let ?K = "EncodeToString (Read_into (replicate 16 0) (fst rnd))"
  let ?A = "Acquire (Some a) ctx name exp now rnd w"
  have res: "fst ?A = Ret (Some \<lparr>Lessor = Some a, Name = name, Exp = exp, Key = ?K\<rparr>,
                 if ?free then None
                 else Some (WithMessage (Foreign ''UNIQUE constraint failed'')
                              ''inserting into database''))"
    if "attached w a" and "snd rnd = None"
    using that(2) by (auto simp: Acquire_attached_result [OF that(1)])
  have rows_after: "rows (store (snd ?A)) =
          filter (\<lambda>r. \<not> r_exp r < now) (rows (store w))
          @ (if ?free then [\<lparr>r_name = name, r_exp = exp, r_key = ?K\<rparr>] else [])"
    if "attached w a" and "snd rnd = None"
    by (simp add: Acquire_attached_rows [OF that(1)] res [OF that])
  have len: "length ?K = 32"
    by (simp add: length_EncodeToString length_Read_into)
  have hex: "set ?K \<subseteq> set ''0123456789abcdef''"
    using set_EncodeToString [of "Read_into (replicate 16 0) (fst rnd)"]
    by (simp only: hextable_def)
  have full: "length (fst rnd) = 16 \<longrightarrow> Read_into (replicate 16 0) (fst rnd) = fst rnd"
    by (simp add: Read_into_full)
  have store_part: "(fst ?A = Ret (Some \<lparr>Lessor = Some a, Name = name, Exp = exp, Key = ?K\<rparr>, None)
       \<longleftrightarrow> ?free)
      \<and> (?free \<longrightarrow> rows (store (snd ?A))
              = filter (\<lambda>r. \<not> r_exp r < now) (rows (store w))
                @ [\<lparr>r_name = name, r_exp = exp, r_key = ?K\<rparr>])
      \<and> (\<not> ?free \<longrightarrow>
            fst ?A = Ret (Some \<lparr>Lessor = Some a, Name = name, Exp = exp, Key = ?K\<rparr>,
                     Some (WithMessage (Foreign ''UNIQUE constraint failed'')
                             ''inserting into database''))
            \<and> rows (store (snd ?A)) = filter (\<lambda>r. \<not> r_exp r < now) (rows (store w)))"
    if "attached w a" and "snd rnd = None"
    using res [OF that] rows_after [OF that] by (cases ?free) simp_all
  show ?thesis
  proof (intro conjI impI)
    assume h: "attached w a \<and> snd rnd = None"
    then have a: "attached w a" and r: "snd rnd = None"
      by simp_all
    note sp = store_part [OF a r]
    show "fst ?A = Ret (Some \<lparr>Lessor = Some a, Name = name, Exp = exp, Key = ?K\<rparr>, None)
          \<longleftrightarrow> ?free"
      by (rule sp [THEN conjunct1])
    show "rows (store (snd ?A)) = filter (\<lambda>r. \<not> r_exp r < now) (rows (store w))
                @ [\<lparr>r_name = name, r_exp = exp, r_key = ?K\<rparr>]" if ?free
      using sp [THEN conjunct2, THEN conjunct1] that by (rule mp)
    show "fst ?A = Ret (Some \<lparr>Lessor = Some a, Name = name, Exp = exp, Key = ?K\<rparr>,
                     Some (WithMessage (Foreign ''UNIQUE constraint failed'')
                             ''inserting into database''))" if "\<not> ?free"
      using sp [THEN conjunct2, THEN conjunct2] that by simp
    show "rows (store (snd ?A)) = filter (\<lambda>r. \<not> r_exp r < now) (rows (store w))"
      if "\<not> ?free"
      using sp [THEN conjunct2, THEN conjunct2] that by simp
    show "trace (snd ?A) =
           trace w @
           [(ctx, Sprintf Acquire_delQFmt [tableName (heap w ! a), expName (heap w ! a)],
             [VTime now]),
            (ctx, Sprintf insQFmt [tableName (heap w ! a), nameName (heap w ! a),
                                   expName (heap w ! a), keyName (heap w ! a)],
             [VStr name, VTime exp, VStr ?K])]"
      by (rule Acquire_attached_trace [OF a r])
    show "length ?K = 32"
      by (rule len)
    show "set ?K \<subseteq> set ''0123456789abcdef''"
      by (rule hex)
    show "Read_into (replicate 16 0) (fst rnd) = fst rnd" if "length (fst rnd) = 16"
      using full that by (rule mp)
  next
    assume "deref w1 lp = Some l \<and> db l = Some f
        \<and> f ctx1 (Sprintf Acquire_delQFmt [tableName l, expName l]) [VTime now1] (store w1)
            = ((res, None), s1)
        \<and> snd rnd1 = Some e"
    then show "Acquire lp ctx1 name1 exp1 now1 rnd1 w1 =
          (Ret (None, Some (WithMessage e ''computing key'')),
           w1\<lparr>store := s1,
              trace := trace w1 @ [(ctx1, Sprintf Acquire_delQFmt [tableName l, expName l],
                                     [VTime now1])]\<rparr>)"
      using Acquire_generic_rand_failed [of w1 lp l f ctx1 now1 res s1 rnd1 e name1 exp1]
      by simp
  qed
qed

theorem Acquire_free_name_witness:
  "attached (sql_world [\<lparr>r_name = ''job-1'', r_exp = 3, r_key = ''k1''\<rparr>]) 0
   \<and> fst (Acquire (Some 0) Background ''job-1'' 50 5
            ([0x00, 0x01, 0x02, 0x03, 0x04, 0x05, 0x06, 0x07,
              0x08, 0x09, 0x0a, 0x0b, 0x0c, 0x0d, 0xfe, 0xff], None)
            (sql_world [\<lparr>r_name = ''job-1'', r_exp = 3, r_key = ''k1''\<rparr>]))
       = Ret (Some \<lparr>Lessor = Some 0, Name = ''job-1'', Exp = 50,
                    Key = ''000102030405060708090a0b0c0dfeff''\<rparr>, None)
   \<and> rows (store (snd (Acquire (Some 0) Background ''job-1'' 50 5
            ([0x00, 0x01, 0x02, 0x03, 0x04, 0x05, 0x06, 0x07,
              0x08, 0x09, 0x0a, 0x0b, 0x0c, 0x0d, 0xfe, 0xff], None)
            (sql_world [\<lparr>r_name = ''job-1'', r_exp = 3, r_key = ''k1''\<rparr>]))))
       = [\<lparr>r_name = ''job-1'', r_exp = 50, r_key = ''000102030405060708090a0b0c0dfeff''\<rparr>]
   \<and> Acquire (Some 0) Background ''job-1'' 50 5 ([], Some (Foreign ''EOF''))
        (sql_world [\<lparr>r_name = ''job-1'', r_exp = 3, r_key = ''k1''\<rparr>])
       = (Ret (None, Some (WithMessage (Foreign ''EOF'') ''computing key'')),
          (sql_world [\<lparr>r_name = ''job-1'', r_exp = 3, r_key = ''k1''\<rparr>])
            \<lparr>store := \<lparr>table_schema = default_schema, rows = []\<rparr>,
              trace := [(Background, ''DELETE FROM leases WHERE exp < $1'', [VTime 5])]\<rparr>)"
proof -
  let ?rs = "[\<lparr>r_name = ''job-1'', r_exp = 3, r_key = ''k1''\<rparr>]"
  let ?bs = "[0x00, 0x01, 0x02, 0x03, 0x04, 0x05, 0x06, 0x07,
              0x08, 0x09, 0x0a, 0x0b, 0x0c, 0x0d, 0xfe, 0xff] :: 8 word list"
  let ?A = "Acquire (Some 0) Background ''job-1'' 50 5 (?bs, None) (sql_world ?rs)"
  let ?K = "EncodeToString (Read_into (replicate 16 0) (fst (?bs, None :: error option)))"
  have d: "deref (sql_world ?rs) (Some 0) = Some sql_lessor"
    by (simp add: deref_def sql_world_def)
  have q: "Sprintf Acquire_delQFmt [tableName sql_lessor, expName sql_lessor]
             = ''DELETE FROM leases WHERE exp < $1''"
    by (simp add: Acquire_delQFmt_def sql_lessor_def tableName_def expName_def
          defaultTable_def defaultExp_def)
  have f: "sql_exec Background ''DELETE FROM leases WHERE exp < $1'' [VTime 5] (store (sql_world ?rs))
             = ((Some (Result (1, None)), None), \<lparr>table_schema = default_schema, rows = []\<rparr>)"
    by (simp add: sql_world_def sql_delete_before_def default_schema_def affected_def stale_def)
  have k: "?K = ''000102030405060708090a0b0c0dfeff''"
    by (simp add: Read_into_def example_key del: EncodeToString.simps)
  have att: "attached (sql_world ?rs) 0"
    by (rule attached_sql_world)
  have free: "\<forall>r\<in>set (rows (store (sql_world ?rs))). r_name r = ''job-1'' \<longrightarrow> r_exp r < 5"
    by (simp add: store_sql_world)
  have r1: "snd (?bs, None :: error option) = None"
    and r2: "snd ([] :: 8 word list, Some (Foreign ''EOF'')) = Some (Foreign ''EOF'')"
    by simp_all
  note inst = Acquire_free_name
         [of "sql_world ?rs" 0 "(?bs, None)" Background "''job-1''" 50 5
             "sql_world ?rs" "Some 0" sql_lessor sql_exec Background 5
             "Some (Result (1, None))" "\<lparr>table_schema = default_schema, rows = []\<rparr>"
             "([], Some (Foreign ''EOF''))" "Foreign ''EOF''" "''job-1''" 50]
  note on_store = inst [THEN conjunct1, THEN mp, OF conjI [OF att r1]]
  have ok: "fst ?A = Ret (Some \<lparr>Lessor = Some 0, Name = ''job-1'', Exp = 50, Key = ?K\<rparr>, None)"
    using on_store [THEN conjunct1] free by (rule iffD2)
  have stored: "rows (store (snd ?A)) =
                  filter (\<lambda>r. \<not> r_exp r < 5) (rows (store (sql_world ?rs)))
                  @ [\<lparr>r_name = ''job-1'', r_exp = 50, r_key = ?K\<rparr>]"
    using on_store [THEN conjunct2, THEN conjunct1] free by (rule mp)
  have stored': "rows (store (snd ?A)) =
                  [\<lparr>r_name = ''job-1'', r_exp = 50, r_key = ''000102030405060708090a0b0c0dfeff''\<rparr>]"
    unfolding stored k by (simp add: store_sql_world)
  have db: "db sql_lessor = Some sql_exec"
    by (simp add: sql_lessor_def)
  have ko: "Acquire (Some 0) Background ''job-1'' 50 5 ([], Some (Foreign ''EOF'')) (sql_world ?rs)
        = (Ret (None, Some (WithMessage (Foreign ''EOF'') ''computing key'')),
           (sql_world ?rs)\<lparr>store := \<lparr>table_schema = default_schema, rows = []\<rparr>,
              trace := trace (sql_world ?rs)
                 @ [(Background, Sprintf Acquire_delQFmt [tableName sql_lessor, expName sql_lessor],
                     [VTime 5])]\<rparr>)"
    by (rule inst [THEN conjunct2, THEN mp]) (intro conjI d db f [folded q] r2)
  have t: "trace (sql_world ?rs) = []"
    by (simp add: sql_world_def)
  show ?thesis
    using att ok [unfolded k] stored' ko [unfolded q t append_Nil] by (intro conjI)
qed

theorem Release_idempotent_witness:
  "deref (sql_world [\<lparr>r_name = ''job-1'', r_exp = 10, r_key = ''k1''\<rparr>]) (Some 0) = Some sql_lessor
   \<and> attached (sql_world [\<lparr>r_name = ''job-1'', r_exp = 10, r_key = ''k1''\<rparr>]) 0
   \<and> fst (Release (Some \<lparr>Lessor = Some 0, Name = ''job-1'', Exp = 10, Key = ''k1''\<rparr>) Background
            (sql_world [\<lparr>r_name = ''job-1'', r_exp = 10, r_key = ''k1''\<rparr>])) = Ret None
   \<and> rows (store (snd (Release (Some \<lparr>Lessor = Some 0, Name = ''job-1'', Exp = 10, Key = ''k1''\<rparr>)
                           Background
                           (sql_world [\<lparr>r_name = ''job-1'', r_exp = 10, r_key = ''k1''\<rparr>])))) = []
   \<and> fst (Release (Some \<lparr>Lessor = Some 0, Name = ''job-1'', Exp = 10, Key = ''k1''\<rparr>) Background
            (snd (Release (Some \<lparr>Lessor = Some 0, Name = ''job-1'', Exp = 10, Key = ''k1''\<rparr>)
                    Background
                    (sql_world [\<lparr>r_name = ''job-1'', r_exp = 10, r_key = ''k1''\<rparr>])))) = Ret None"
proof -
  let ?rs = "[\<lparr>r_name = ''job-1'', r_exp = 10, r_key = ''k1''\<rparr>]"
  let ?l = "\<lparr>Lessor = Some 0, Name = ''job-1'', Exp = 10, Key = ''k1''\<rparr>"
  have d: "deref (sql_world ?rs) (Some 0) = Some sql_lessor"
    by (simp add: deref_def sql_world_def)
  have db: "db sql_lessor = Some sql_exec"
    by (simp add: sql_lessor_def)
  have att: "attached (sql_world ?rs) 0"
    by (rule attached_sql_world)
  have l: "Lessor ?l = Some 0"
    by simp
  note inst = Release_idempotent
         [of "sql_world ?rs" ?l sql_lessor sql_exec Background "sql_world ?rs" 0 ?l Background]
  have "fst (Release (Some ?l) Background (sql_world ?rs)) = Ret None
        \<and> rows (store (snd (Release (Some ?l) Background (sql_world ?rs))))
            = filter (\<lambda>r. \<not> (r_name r = Name ?l \<and> r_key r = Key ?l)) (rows (store (sql_world ?rs)))
        \<and> fst (Release (Some ?l) Background (snd (Release (Some ?l) Background (sql_world ?rs))))
            = Ret None"
    using inst d db att l by blast
  moreover have "filter (\<lambda>r. \<not> (r_name r = Name ?l \<and> r_key r = Key ?l)) (rows (store (sql_world ?rs))) = []"
    by (simp add: store_sql_world)
  ultimately show ?thesis
    using d att by (simp only: simp_thms)
qed

section \<open>The unique index\<close>

lemma r_name_update:
  "r_name \<circ> (\<lambda>r. if P r then r\<lparr>r_exp := e\<rparr> else r) = r_name"
  by (auto simp: fun_eq_iff)

lemma sql_exec_unique_names:
  assumes "unique_names st"
  shows "unique_names (snd (sql_exec ctx q args st))"
  using assms
  by (cases "(ctx, q, args, st)" rule: sql_exec.cases)
     (auto simp: unique_names_def distinct_map_filter r_name_update)

lemma unique_row:
  assumes "unique_names st" and "r \<in> set (rows st)" and "r' \<in> set (rows st)"
      and "r_name r' = r_name r"
  shows "r' = r"
  using assms by (auto simp: unique_names_def distinct_map dest: inj_onD)

text \<open>
  Claim C10. A row whose expiration equals the current time survives the sweep of an
  Acquire at that time, whatever name is acquired; and, the name column being unique,
  Renew at that time on the handle of that row returns the ``could not renew'' error and
  leaves the store as it was.
\<close>

theorem expiring_now_kept_and_not_renewable:
  assumes "attached w a" and "r \<in> set (rows (store w))" and "r_exp r = now"
  shows "r \<in> set (rows (store (snd (Acquire (Some a) ctx name exp now rnd w))))
       \<and> (unique_names (store w) \<and> Lessor l = Some a \<and> Name l = r_name r \<and> Key l = r_key r \<longrightarrow>
            fst (Renew (Some l) ctx' newExp now w) = Ret (Some (Fundamental ''could not renew''))
            \<and> store (snd (Renew (Some l) ctx' newExp now w)) = store w)"
proof -
  have kept: "r \<in> set (rows (store (snd (Acquire (Some a) ctx name exp now rnd w))))"
    using assms(2,3) by (simp add: Acquire_attached_rows [OF assms(1)])
  have refused: "fst (Renew (Some l) ctx' newExp now w) = Ret (Some (Fundamental ''could not renew''))
            \<and> store (snd (Renew (Some l) ctx' newExp now w)) = store w"
    if u: "unique_names (store w)" and l: "Lessor l = Some a"
      and n: "Name l = r_name r" and k: "Key l = r_key r"
  proof -
    have "\<not> (\<exists>r'\<in>set (rows (store w)). r_name r' = Name l \<and> r_key r' = Key l \<and> now < r_exp r')"
    proof
      assume "\<exists>r'\<in>set (rows (store w)). r_name r' = Name l \<and> r_key r' = Key l \<and> now < r_exp r'"
      then obtain r' where r': "r' \<in> set (rows (store w))" "r_name r' = r_name r" "now < r_exp r'"
        using n by auto
      have "r' = r"
        by (rule unique_row [OF u assms(2) r'(1) r'(2)])
      with r'(3) assms(3) show False by simp
    qed
    then show ?thesis
      using Renew_attached [OF assms(1) l, of ctx' newExp now]
            map_unrenewable [of "rows (store w)" "Name l" "Key l" now newExp]
      by (simp add: renewable_def)
  qed
  show ?thesis
    using kept refused by blast
qed

theorem expiring_now_kept_and_not_renewable_witness:
  "attached (sql_world [\<lparr>r_name = ''job-1'', r_exp = 5, r_key = ''k1''\<rparr>]) 0
   \<and> unique_names (store (sql_world [\<lparr>r_name = ''job-1'', r_exp = 5, r_key = ''k1''\<rparr>]))
   \<and> \<lparr>r_name = ''job-1'', r_exp = 5, r_key = ''k1''\<rparr>
        \<in> set (rows (store (snd (Acquire (Some 0) Background ''job-2'' 50 5 ([], None)
                   (sql_world [\<lparr>r_name = ''job-1'', r_exp = 5, r_key = ''k1''\<rparr>])))))
   \<and> fst (Renew (Some \<lparr>Lessor = Some 0, Name = ''job-1'', Exp = 5, Key = ''k1''\<rparr>) Background 20 5
            (sql_world [\<lparr>r_name = ''job-1'', r_exp = 5, r_key = ''k1''\<rparr>]))
       = Ret (Some (Fundamental ''could not renew''))"
proof -
  let ?r = "\<lparr>r_name = ''job-1'', r_exp = 5, r_key = ''k1''\<rparr>"
  let ?l = "\<lparr>Lessor = Some 0, Name = ''job-1'', Exp = 5, Key = ''k1''\<rparr>"
  have att: "attached (sql_world [?r]) 0"
    by (rule attached_sql_world)
  have mem: "?r \<in> set (rows (store (sql_world [?r])))"
    by (simp add: store_sql_world)
  have e: "r_exp ?r = 5"
    by simp
  have u: "unique_names (store (sql_world [?r]))"
    by (simp add: unique_names_def store_sql_world)
  have l: "Lessor ?l = Some 0 \<and> Name ?l = r_name ?r \<and> Key ?l = r_key ?r"
    by simp
  from expiring_now_kept_and_not_renewable
         [OF att mem e, of Background "''job-2''" 50 "([], None)" ?l Background 20]
  show ?thesis
    using att u l by blast
qed

section \<open>Two callers of Acquire\<close>

lemma run2_alone:
  "run2 c1 c2 [True, True] (Calling, p2, w) =
     (Returned (fst (Acquire (c_lessor c1) (c_ctx c1) (c_name c1) (c_exp c1) (c_now c1) (c_rnd c1) w)),
      p2,
      snd (Acquire (c_lessor c1) (c_ctx c1) (c_name c1) (c_exp c1) (c_now c1) (c_rnd c1) w))"
  by (simp add: Acquire_split split: prod.splits outcome.splits option.splits)

lemma acquire_step_attached:
  assumes "attached w a" and "c_lessor c = Some a"
  shows "acquire_step c pc w =
     (case pc of
        Calling \<Rightarrow>
          (Swept,
           w\<lparr>store := (store w)\<lparr>rows := filter (\<lambda>r. \<not> r_exp r < c_now c) (rows (store w))\<rparr>,
             trace := trace w @ [(c_ctx c, sql_delete_before (table_schema (store w)),
                                  [VTime (c_now c)])]\<rparr>)
      | Swept \<Rightarrow>
          (case Acquire_insert (Some a) (c_ctx c) (c_name c) (c_exp c) (c_rnd c) w of
             (r, w2) \<Rightarrow> (Returned r, w2))
      | Returned r \<Rightarrow> (Returned r, w))"
  using assms by (cases pc) (simp_all add: Acquire_sweep_attached)

lemma acquire_step_invariant:
  assumes "attached w a" and "c_lessor c = Some a" and "acquire_step c pc w = (pc', w')"
  shows "heap w' = heap w \<and> table_schema (store w') = table_schema (store w)
         \<and> (unique_names (store w) \<longrightarrow> unique_names (store w'))"
proof (cases pc)
  case Calling
  then show ?thesis
    using assms(3) acquire_step_attached [OF assms(1,2), of pc]
    by (auto simp: unique_names_def distinct_map_filter)
next
  case Swept
  then show ?thesis
    using assms(3) acquire_step_attached [OF assms(1,2), of pc]
          Acquire_insert_attached [OF assms(1), of "c_ctx c" "c_name c" "c_exp c" "c_rnd c"]
    by (auto simp: unique_names_def Let_def split: option.splits if_splits)
next
  case (Returned r)
  then show ?thesis
    using assms(3) by auto
qed

lemma attached_invariant:
  "heap w' = heap w \<Longrightarrow> table_schema (store w') = table_schema (store w) \<Longrightarrow>
     attached w a \<Longrightarrow> attached w' a"
  by (simp add: attached_def)

lemma run2_unique_names:
  assumes "attached w a" and "attached w b" and "c_lessor c1 = Some a" and "c_lessor c2 = Some b"
      and "unique_names (store w)"
  shows "unique_names (store (snd (snd (run2 c1 c2 sch (p1, p2, w)))))"
  using assms(1,2,5)
proof (induction sch arbitrary: p1 p2 w)
  case Nil
  then show ?case by simp
next
  case (Cons x sch)
  show ?case
  proof (cases x)
    case True
    obtain p1' w' where s: "acquire_step c1 p1 w = (p1', w')"
      by (cases "acquire_step c1 p1 w")
    note inv = acquire_step_invariant [OF Cons.prems(1) assms(3) s]
    have "unique_names (store (snd (snd (run2 c1 c2 sch (p1', p2, w')))))"
      using inv Cons.prems
      by (intro Cons.IH) (auto intro: attached_invariant)
    then show ?thesis
      using True s by simp
  next
    case False
    obtain p2' w' where s: "acquire_step c2 p2 w = (p2', w')"
      by (cases "acquire_step c2 p2 w")
    note inv = acquire_step_invariant [OF Cons.prems(2) assms(4) s]
    have "unique_names (store (snd (snd (run2 c1 c2 sch (p1, p2', w')))))"
      using inv Cons.prems
      by (intro Cons.IH) (auto intro: attached_invariant)
    then show ?thesis
      using False s by simp
  qed
qed

lemma unique_names_at_most_one:
  "unique_names st \<Longrightarrow> length (filter (\<lambda>r. r_name r = n) (rows st)) \<le> 1"
proof -
  have "distinct (map r_name rs) \<Longrightarrow> length (filter (\<lambda>r. r_name r = n) rs) \<le> 1" for rs
  proof (induction rs)
    case Nil
    then show ?case by simp
  next
    case (Cons r rs)
    then show ?case
      by (auto simp: filter_empty_conv image_iff)
  qed
  then show "unique_names st \<Longrightarrow> length (filter (\<lambda>r. r_name r = n) (rows st)) \<le> 1"
    by (simp add: unique_names_def)
qed

lemma step_sweep:
  assumes "a < length (heap w)" and "db (heap w ! a) = Some sql_exec"
      and "schema_of (heap w ! a) = table_schema (store w)" and "c_lessor c = Some a"
  shows "acquire_step c Calling w =
          (Swept,
           w\<lparr>store := (store w)\<lparr>rows := filter (\<lambda>r. \<not> r_exp r < c_now c) (rows (store w))\<rparr>,
             trace := trace w @ [(c_ctx c, sql_delete_before (table_schema (store w)),
                                  [VTime (c_now c)])]\<rparr>)"
  using acquire_step_attached [of w a c Calling] assms by (simp add: attached_def)

lemma step_insert:
  assumes "a < length (heap w)" and "db (heap w ! a) = Some sql_exec"
      and "schema_of (heap w ! a) = table_schema (store w)" and "c_lessor c = Some a"
      and "snd (c_rnd c) = None"
  shows "acquire_step c Swept w =
          (let k = EncodeToString (Read_into (replicate 16 0) (fst (c_rnd c)));
               l = \<lparr>Lessor = Some a, Name = c_name c, Exp = c_exp c, Key = k\<rparr>;
               t = trace w @ [(c_ctx c, sql_insert (table_schema (store w)),
                               [VStr (c_name c), VTime (c_exp c), VStr k])]
           in if c_name c \<in> r_name ` set (rows (store w))
              then (Returned (Ret (Some l, Some (WithMessage (Foreign ''UNIQUE constraint failed'')
                                         ''inserting into database''))),
                    w\<lparr>store := store w, trace := t\<rparr>)
              else (Returned (Ret (Some l, None)),
                    w\<lparr>store := (store w)\<lparr>rows := rows (store w)
                           @ [\<lparr>r_name = c_name c, r_exp = c_exp c, r_key = k\<rparr>]\<rparr>,
                      trace := t\<rparr>))"
  using acquire_step_attached [of w a c Swept] Acquire_insert_attached [of w a "c_ctx c" "c_name c" "c_exp c" "c_rnd c"] assms
  by (simp add: attached_def Let_def)

lemma all_schedules:
  "(\<forall>s\<in>shuffles [True, True] [False, False]. Q s) \<longleftrightarrow>
     Q [True, True, False, False] \<and> Q [True, False, True, False]
     \<and> Q [True, False, False, True] \<and> Q [False, True, True, False]
     \<and> Q [False, True, False, True] \<and> Q [False, False, True, True]"
  by auto

lemma step_insert_any:
  assumes "a < length (heap w)" and "db (heap w ! a) = Some sql_exec"
      and "schema_of (heap w ! a) = table_schema (store w)" and "c_lessor c = Some a"
  shows "acquire_step c Swept w =
          (case snd (c_rnd c) of
             Some err \<Rightarrow> (Returned (Ret (None, Some (WithMessage err ''computing key''))), w)
           | None \<Rightarrow>
          (let k = EncodeToString (Read_into (replicate 16 0) (fst (c_rnd c)));
               l = \<lparr>Lessor = Some a, Name = c_name c, Exp = c_exp c, Key = k\<rparr>;
               t = trace w @ [(c_ctx c, sql_insert (table_schema (store w)),
                               [VStr (c_name c), VTime (c_exp c), VStr k])]
           in if c_name c \<in> r_name ` set (rows (store w))
              then (Returned (Ret (Some l, Some (WithMessage (Foreign ''UNIQUE constraint failed'')
                                         ''inserting into database''))),
                    w\<lparr>store := store w, trace := t\<rparr>)
              else (Returned (Ret (Some l, None)),
                    w\<lparr>store := (store w)\<lparr>rows := rows (store w)
                           @ [\<lparr>r_name = c_name c, r_exp = c_exp c, r_key = k\<rparr>]\<rparr>,
                      trace := t\<rparr>)))"
  using acquire_step_attached [of w a c Swept] Acquire_insert_attached [of w a "c_ctx c" "c_name c" "c_exp c" "c_rnd c"] assms
  by (simp add: attached_def Let_def split: option.splits)

text \<open>
  The condition under which exactly one call wins in every interleaving, by who gets
  a key.
\<close>

lemma name_taken_iff: "n \<in> r_name ` {x \<in> set rs. P x} \<longleftrightarrow> (\<exists>r\<in>set rs. r_name r = n \<and> P r)"
  by auto

lemma one_winner_both:
  assumes "attached w a" and "attached w b" and "c_lessor c1 = Some a" and "c_lessor c2 = Some b"
      and "c_name c1 = c_name c2"
      and r: "snd (c_rnd c1) = None" "snd (c_rnd c2) = None"
  shows "(\<forall>s\<in>shuffles [True, True] [False, False].
            one_call_wins (run2 c1 c2 s (Calling, Calling, w)))
         \<longleftrightarrow> (\<forall>r\<in>set (rows (store w)). r_name r = c_name c1 \<longrightarrow>
               r_exp r < c_now c1 \<or> r_exp r < c_now c2)
         \<and> ((\<forall>r\<in>set (rows (store w)). r_name r = c_name c1 \<longrightarrow> r_exp r < c_now c1)
              \<longrightarrow> \<not> c_exp c1 < c_now c2)
         \<and> ((\<forall>r\<in>set (rows (store w)). r_name r = c_name c1 \<longrightarrow> r_exp r < c_now c2)
              \<longrightarrow> \<not> c_exp c2 < c_now c1)"
proof -
  note steps = step_sweep [where c = c1 and a = a] step_sweep [where c = c2 and a = b]
    step_insert_any [where c = c1 and a = a] step_insert_any [where c = c2 and a = b] Let_def
  show ?thesis
    using assms unfolding attached_def one_call_wins_def all_schedules
    apply (simp add: steps name_taken_iff del: acquire_step.simps)
    apply blast?
    done
qed

lemma one_winner_first:
  assumes "attached w a" and "attached w b" and "c_lessor c1 = Some a" and "c_lessor c2 = Some b"
      and "c_name c1 = c_name c2"
      and r: "snd (c_rnd c1) = None" "snd (c_rnd c2) = Some e2"
  shows "(\<forall>s\<in>shuffles [True, True] [False, False].
            one_call_wins (run2 c1 c2 s (Calling, Calling, w)))
         \<longleftrightarrow> (\<forall>r\<in>set (rows (store w)). r_name r = c_name c1 \<longrightarrow> r_exp r < c_now c1)"
proof -
  note steps = step_sweep [where c = c1 and a = a] step_sweep [where c = c2 and a = b]
    step_insert_any [where c = c1 and a = a] step_insert_any [where c = c2 and a = b] Let_def
  show ?thesis
    using assms unfolding attached_def one_call_wins_def all_schedules
    apply (simp add: steps name_taken_iff del: acquire_step.simps)
    apply blast?
    done
qed

lemma one_winner_second:
  assumes "attached w a" and "attached w b" and "c_lessor c1 = Some a" and "c_lessor c2 = Some b"
      and "c_name c1 = c_name c2"
      and r: "snd (c_rnd c1) = Some e1" "snd (c_rnd c2) = None"
  shows "(\<forall>s\<in>shuffles [True, True] [False, False].
            one_call_wins (run2 c1 c2 s (Calling, Calling, w)))
         \<longleftrightarrow> (\<forall>r\<in>set (rows (store w)). r_name r = c_name c1 \<longrightarrow> r_exp r < c_now c2)"
proof -
  note steps = step_sweep [where c = c1 and a = a] step_sweep [where c = c2 and a = b]
    step_insert_any [where c = c1 and a = a] step_insert_any [where c = c2 and a = b] Let_def
  show ?thesis
    using assms unfolding attached_def one_call_wins_def all_schedules
    apply (simp add: steps name_taken_iff del: acquire_step.simps)
    apply blast?
    done
qed

lemma one_winner_none:
  assumes "attached w a" and "attached w b" and "c_lessor c1 = Some a" and "c_lessor c2 = Some b"
      and "c_name c1 = c_name c2"
      and r: "snd (c_rnd c1) = Some e1" "snd (c_rnd c2) = Some e2"
  shows "(\<forall>s\<in>shuffles [True, True] [False, False].
            one_call_wins (run2 c1 c2 s (Calling, Calling, w)))
         \<longleftrightarrow> False"
proof -
  note steps = step_sweep [where c = c1 and a = a] step_sweep [where c = c2 and a = b]
    step_insert_any [where c = c1 and a = a] step_insert_any [where c = c2 and a = b] Let_def
  show ?thesis
    using assms unfolding attached_def one_call_wins_def all_schedules
    apply (simp add: steps name_taken_iff del: acquire_step.simps)
    apply blast?
    done
qed

text \<open>
  Claim C5, as stated, fails: when the name is already held by an unexpired row, the
  inserts of both callers are refused.
\<close>

theorem concurrent_Acquire_both_fail_counterexample:
  "[True, False, True, False] \<in> shuffles [True, True] [False, False]
   \<and> failed (fst (run2 first_call second_call [True, False, True, False]
                 (Calling, Calling,
                  sql_world [\<lparr>r_name = ''job-1'', r_exp = 100, r_key = ''k0''\<rparr>])))
   \<and> failed (fst (snd (run2 first_call second_call [True, False, True, False]
                 (Calling, Calling,
                  sql_world [\<lparr>r_name = ''job-1'', r_exp = 100, r_key = ''k0''\<rparr>]))))"
proof -
  let ?w = "sql_world [\<lparr>r_name = ''job-1'', r_exp = 100, r_key = ''k0''\<rparr>]"
  have att: "0 < length (heap ?w) \<and> db (heap ?w ! 0) = Some sql_exec
             \<and> schema_of (heap ?w ! 0) = table_schema (store ?w)"
    using attached_sql_world [of "[\<lparr>r_name = ''job-1'', r_exp = 100, r_key = ''k0''\<rparr>]"]
    by (simp add: attached_def)
  have c: "c_lessor first_call = Some 0" "c_lessor second_call = Some 0"
    "snd (c_rnd first_call) = None" "snd (c_rnd second_call) = None"
    "c_name first_call = ''job-1''" "c_name second_call = ''job-1''"
    "c_now first_call = 5" "c_now second_call = 6"
    by (simp_all add: first_call_def second_call_def)
  note steps = step_sweep [where c = first_call and a = 0] step_sweep [where c = second_call and a = 0]
    step_insert [where c = first_call and a = 0] step_insert [where c = second_call and a = 0] Let_def
  show ?thesis
    using att by (simp add: steps c store_sql_world del: acquire_step.simps)
qed

text \<open>
  Nor is it at most one: when the first caller's lease has run out by the second caller's
  clock, the second sweep removes its row and both inserts succeed, one after the other.
\<close>

lemma concurrent_Acquire_both_succeed_example:
  "succeeded (fst (run2 first_call late_call [True, True, False, False]
                     (Calling, Calling, sql_world [])))
   \<and> succeeded (fst (snd (run2 first_call late_call [True, True, False, False]
                     (Calling, Calling, sql_world []))))"
proof -
  let ?w = "sql_world []"
  have att: "0 < length (heap ?w) \<and> db (heap ?w ! 0) = Some sql_exec
             \<and> schema_of (heap ?w ! 0) = table_schema (store ?w)"
    using attached_sql_world [of "[]"] by (simp add: attached_def)
  have c: "c_lessor first_call = Some 0" "c_lessor late_call = Some 0"
    "snd (c_rnd first_call) = None" "snd (c_rnd late_call) = None"
    "c_name first_call = ''job-1''" "c_name late_call = ''job-1''"
    "c_now first_call = 5" "c_now late_call = 70" "c_exp first_call = 50"
    by (simp_all add: first_call_def late_call_def)
  note steps = step_sweep [where c = first_call and a = 0] step_sweep [where c = late_call and a = 0]
    step_insert [where c = first_call and a = 0] step_insert [where c = late_call and a = 0] Let_def
  show ?thesis
    using att by (simp add: steps c store_sql_world del: acquire_step.simps)
qed

text \<open>
  Claim C5, amended. Two calls of Acquire for one name, on a store whose name column is
  unique, their statements interleaved in any order: after every statement the table
  holds at most one row of that name. Exactly one of the two calls returns a nil error
  and the other an error, in every interleaving, if and only if: at least one caller gets
  its key; every row of the name already in the table has expired by the clock of a
  caller that gets its key; and, when both get their keys, a caller by whose clock all
  those rows have expired does not ask for an expiration before the other caller's clock
  reading.
\<close>

theorem concurrent_Acquire_exclusion:
  assumes "attached w a" and "attached w b"
      and "c_lessor c1 = Some a" and "c_lessor c2 = Some b"
      and "c_name c1 = c_name c2" and "unique_names (store w)"
  shows "length (filter (\<lambda>r. r_name r = c_name c1)
                   (rows (store (snd (snd (run2 c1 c2 sch (Calling, Calling, w))))))) \<le> 1
       \<and> ((\<forall>s\<in>shuffles [True, True] [False, False].
              case run2 c1 c2 s (Calling, Calling, w) of
                (p1, p2, w') \<Rightarrow> (succeeded p1 \<and> failed p2) \<or> (failed p1 \<and> succeeded p2))
            \<longleftrightarrow>
            (snd (c_rnd c1) = None \<or> snd (c_rnd c2) = None)
            \<and> (\<forall>r\<in>set (rows (store w)). r_name r = c_name c1 \<longrightarrow>
                  (snd (c_rnd c1) = None \<and> r_exp r < c_now c1)
                  \<or> (snd (c_rnd c2) = None \<and> r_exp r < c_now c2))
            \<and> (snd (c_rnd c1) = None \<and> snd (c_rnd c2) = None
                 \<and> (\<forall>r\<in>set (rows (store w)). r_name r = c_name c1 \<longrightarrow> r_exp r < c_now c1)
                 \<longrightarrow> \<not> c_exp c1 < c_now c2)
            \<and> (snd (c_rnd c1) = None \<and> snd (c_rnd c2) = None
                 \<and> (\<forall>r\<in>set (rows (store w)). r_name r = c_name c1 \<longrightarrow> r_exp r < c_now c2)
                 \<longrightarrow> \<not> c_exp c2 < c_now c1))"
proof -
  have "unique_names (store (snd (snd (run2 c1 c2 sch (Calling, Calling, w)))))"
    by (rule run2_unique_names [OF assms(1-4,6)])
  then have one: "length (filter (\<lambda>r. r_name r = c_name c1)
                   (rows (store (snd (snd (run2 c1 c2 sch (Calling, Calling, w))))))) \<le> 1"
    by (rule unique_names_at_most_one)
  have wins: "(\<forall>s\<in>shuffles [True, True] [False, False].
              case run2 c1 c2 s (Calling, Calling, w) of
                (p1, p2, w') \<Rightarrow> (succeeded p1 \<and> failed p2) \<or> (failed p1 \<and> succeeded p2))
            \<longleftrightarrow> (\<forall>s\<in>shuffles [True, True] [False, False].
                   one_call_wins (run2 c1 c2 s (Calling, Calling, w)))"
    by (simp only: one_call_wins_def)
  have exact: "(\<forall>s\<in>shuffles [True, True] [False, False].
                   one_call_wins (run2 c1 c2 s (Calling, Calling, w)))
            \<longleftrightarrow>
            (snd (c_rnd c1) = None \<or> snd (c_rnd c2) = None)
            \<and> (\<forall>r\<in>set (rows (store w)). r_name r = c_name c1 \<longrightarrow>
                  (snd (c_rnd c1) = None \<and> r_exp r < c_now c1)
                  \<or> (snd (c_rnd c2) = None \<and> r_exp r < c_now c2))
            \<and> (snd (c_rnd c1) = None \<and> snd (c_rnd c2) = None
                 \<and> (\<forall>r\<in>set (rows (store w)). r_name r = c_name c1 \<longrightarrow> r_exp r < c_now c1)
                 \<longrightarrow> \<not> c_exp c1 < c_now c2)
            \<and> (snd (c_rnd c1) = None \<and> snd (c_rnd c2) = None
                 \<and> (\<forall>r\<in>set (rows (store w)). r_name r = c_name c1 \<longrightarrow> r_exp r < c_now c2)
                 \<longrightarrow> \<not> c_exp c2 < c_now c1)"
  proof (cases "snd (c_rnd c1)")
    case n1: None
    show ?thesis
    proof (cases "snd (c_rnd c2)")
      case None
      show ?thesis
        unfolding one_winner_both [OF assms(1-5) n1 None] by (simp add: n1 None)
    next
      case (Some e2)
      show ?thesis
        unfolding one_winner_first [OF assms(1-5) n1 Some] by (simp add: n1 Some)
    qed
  next
    case s1: (Some e1)
    show ?thesis
    proof (cases "snd (c_rnd c2)")
      case None
      show ?thesis
        unfolding one_winner_second [OF assms(1-5) s1 None] by (simp add: s1 None)
    next
      case (Some e2)
      show ?thesis
        unfolding one_winner_none [OF assms(1-5) s1 Some] by (simp add: s1 Some)
    qed
  qed
  show ?thesis
    using one wins exact by (simp only: simp_thms)
qed

theorem concurrent_Acquire_exclusion_witness:
  "attached (sql_world [\<lparr>r_name = ''job-1'', r_exp = 5, r_key = ''k0''\<rparr>]) 0
   \<and> unique_names (store (sql_world [\<lparr>r_name = ''job-1'', r_exp = 5, r_key = ''k0''\<rparr>]))
   \<and> [True, True, False, False] \<in> shuffles [True, True] [False, False]
   \<and> (case run2 first_call second_call [True, True, False, False]
              (Calling, Calling, sql_world [\<lparr>r_name = ''job-1'', r_exp = 5, r_key = ''k0''\<rparr>]) of
         (p1, p2, w') \<Rightarrow> (succeeded p1 \<and> failed p2) \<or> (failed p1 \<and> succeeded p2))"
proof -
  let ?rs = "[\<lparr>r_name = ''job-1'', r_exp = 5, r_key = ''k0''\<rparr>]"
  have att: "attached (sql_world ?rs) 0"
    by (rule attached_sql_world)
  have u: "unique_names (store (sql_world ?rs))"
    by (simp add: unique_names_def store_sql_world)
  have c: "c_lessor first_call = Some 0" "c_lessor second_call = Some 0"
    "c_name first_call = c_name second_call"
    by (simp_all add: first_call_def second_call_def)
  have s: "[True, True, False, False] \<in> shuffles [True, True] [False, False]"
    by simp
  note inst = concurrent_Acquire_exclusion [OF att att c u, of "[]"]
  have "\<forall>s\<in>shuffles [True, True] [False, False].
          case run2 first_call second_call s (Calling, Calling, sql_world ?rs) of
            (p1, p2, w') \<Rightarrow> (succeeded p1 \<and> failed p2) \<or> (failed p1 \<and> succeeded p2)"
    by (rule inst [THEN conjunct2, THEN iffD2])
       (simp add: store_sql_world first_call_def second_call_def)
  then have "case run2 first_call second_call [True, True, False, False]
              (Calling, Calling, sql_world ?rs) of
         (p1, p2, w') \<Rightarrow> (succeeded p1 \<and> failed p2) \<or> (failed p1 \<and> succeeded p2)"
    using s by (rule bspec)
  then show ?thesis
    using att u s by (intro conjI)
qed

end
